theory Spec2Isabelle
  imports Complex_Main
begin

section \<open>JavaScript values used by the web client\<close>

text \<open>
  The client (\<^verbatim>\<open>app.js\<close>) works on numbers that are whole or \<^verbatim>\<open>NaN\<close>, on
  strings, on \<^verbatim>\<open>Date\<close> objects and on the JSON tasks the server returns.
\<close>

datatype jsnum = NaN | Num int

text \<open>
  A destructured array element or an optional field is a \<open>jsnum option\<close>, \<open>None\<close> being
  \<^verbatim>\<open>undefined\<close>.  \<open>falsy\<close> is \<^verbatim>\<open>!x\<close>, \<open>Number_isNaN\<close> is \<^verbatim>\<open>Number.isNaN(x)\<close> (which
  does not coerce, so it is false on \<^verbatim>\<open>undefined\<close>) and \<open>ToNumber\<close> is the coercion an
  arithmetic operator or the \<^verbatim>\<open>Date\<close> constructor applies.
\<close>

definition falsy :: "jsnum option \<Rightarrow> bool" where
  "falsy x = (x = None \<or> x = Some NaN \<or> x = Some (Num 0))"

definition Number_isNaN :: "jsnum option \<Rightarrow> bool" where
  "Number_isNaN x = (x = Some NaN)"

definition ToNumber :: "jsnum option \<Rightarrow> jsnum" where
  "ToNumber x = (case x of None \<Rightarrow> NaN | Some n \<Rightarrow> n)"

fun js_plus :: "jsnum \<Rightarrow> jsnum \<Rightarrow> jsnum" where
  "js_plus (Num a) (Num b) = Num (a + b)"
| "js_plus _ _ = NaN"

fun js_minus :: "jsnum \<Rightarrow> jsnum \<Rightarrow> jsnum" where
  "js_minus (Num a) (Num b) = Num (a - b)"
| "js_minus _ _ = NaN"

fun js_times :: "jsnum \<Rightarrow> jsnum \<Rightarrow> jsnum" where
  "js_times (Num a) (Num b) = Num (a * b)"
| "js_times _ _ = NaN"


text \<open>\<^verbatim>\<open>x || d\<close> on an optional number: \<^verbatim>\<open>null\<close>, \<^verbatim>\<open>undefined\<close> and \<^verbatim>\<open>0\<close> are falsy.\<close>

definition js_or :: "int option \<Rightarrow> int \<Rightarrow> int" where
  "js_or x d = (case x of None \<Rightarrow> d | Some n \<Rightarrow> if n = 0 then d else n)"

text \<open>\<^verbatim>\<open>Math.round\<close>: the nearest integer, a half rounding up.\<close>

definition Math_round :: "real \<Rightarrow> int" where
  "Math_round x = \<lfloor>x + 1 / 2\<rfloor>"

subsection \<open>Strings\<close>

definition digit_chars :: string where
  "digit_chars = ''0123456789''"

definition digit_char :: "nat \<Rightarrow> char" where
  "digit_char n = digit_chars ! (n mod 10)"

definition is_digit :: "char \<Rightarrow> bool" where
  "is_digit c = (c \<in> set digit_chars)"

definition digit_val :: "char \<Rightarrow> nat" where
  "digit_val c = of_char c - 48"

fun digits_of :: "nat \<Rightarrow> string" where
  "digits_of n = (if n < 10 then [digit_char n] else digits_of (n div 10) @ [digit_char n])"

declare digits_of.simps [simp del]

text \<open>\<^verbatim>\<open>String(x)\<close> of a number.\<close>

definition js_String :: "jsnum \<Rightarrow> string" where
  "js_String x =
     (case x of
        NaN \<Rightarrow> ''NaN''
      | Num n \<Rightarrow> if n < 0 then CHR ''-'' # digits_of (nat (- n)) else digits_of (nat n))"

text \<open>\<^verbatim>\<open>s.padStart(2, '0')\<close>.\<close>

definition padStart2 :: "string \<Rightarrow> string" where
  "padStart2 s = replicate (2 - length s) CHR ''0'' @ s"

text \<open>\<^verbatim>\<open>s.split(c)\<close> for a one-character separator: \<^verbatim>\<open>''.split('-')\<close> is \<^verbatim>\<open>['']\<close>.\<close>

fun split_on :: "char \<Rightarrow> string \<Rightarrow> string list" where
  "split_on c [] = [[]]"
| "split_on c (x # xs) =
     (if x = c then [] # split_on c xs
      else (case split_on c xs of [] \<Rightarrow> [[x]] | p # ps \<Rightarrow> (x # p) # ps))"

definition parse_digits :: "string \<Rightarrow> nat" where
  "parse_digits s = foldl (\<lambda>acc c. 10 * acc + digit_val c) 0 s"

text \<open>
  \<^verbatim>\<open>Number(s)\<close> on the strings the client meets: the empty string is 0, a string of
  decimal digits with an optional sign is its value, anything else is \<^verbatim>\<open>NaN\<close>.
  JavaScript also accepts surrounding white space, fractions, exponents, radix prefixes
  and \<^verbatim>\<open>Infinity\<close>; those spellings are outside this model.
\<close>

definition js_Number :: "string \<Rightarrow> jsnum" where
  "js_Number s =
     (if s = [] then Num 0
      else if list_all is_digit s then Num (int (parse_digits s))
      else case s of
        [] \<Rightarrow> NaN
      | c # ds \<Rightarrow>
          if ds \<noteq> [] \<and> list_all is_digit ds \<and> c = CHR ''+'' then Num (int (parse_digits ds))
          else if ds \<noteq> [] \<and> list_all is_digit ds \<and> c = CHR ''-''
          then Num (- int (parse_digits ds))
          else NaN)"

text \<open>
  \<^verbatim>\<open>parseInt(s, 10)\<close>: leading white space is skipped, then an optional sign and the
  longest run of decimal digits are read; with no digit the result is \<^verbatim>\<open>NaN\<close>.
\<close>

definition is_space :: "char \<Rightarrow> bool" where
  "is_space c = (c \<in> set [CHR '' '', CHR 0x09, CHR 0x0A, CHR 0x0B, CHR 0x0C, CHR 0x0D])"

definition parseInt10 :: "string \<Rightarrow> jsnum" where
  "parseInt10 s =
     (let t = dropWhile is_space s;
          neg = (t \<noteq> [] \<and> hd t = CHR ''-'');
          u = (if t \<noteq> [] \<and> (hd t = CHR ''-'' \<or> hd t = CHR ''+'') then tl t else t);
          ds = takeWhile is_digit u
      in if ds = [] then NaN
         else Num ((if neg then - 1 else 1) * int (parse_digits ds)))"

text \<open>\<^verbatim>\<open>n || d\<close> on a number that may be \<^verbatim>\<open>NaN\<close>.\<close>

definition js_or_num :: "jsnum \<Rightarrow> int \<Rightarrow> int" where
  "js_or_num x d = (case x of NaN \<Rightarrow> d | Num n \<Rightarrow> if n = 0 then d else n)"

text \<open>\<^verbatim>\<open>a || b\<close> on strings: the empty string is falsy.\<close>

definition js_or_str :: "string \<Rightarrow> string \<Rightarrow> string" where
  "js_or_str a b = (if a \<noteq> [] then a else b)"

text \<open>\<^verbatim>\<open>s.trim()\<close>.\<close>

definition trim :: "string \<Rightarrow> string" where
  "trim s = rev (dropWhile is_space (rev (dropWhile is_space s)))"

section \<open>The \<^verbatim>\<open>Date\<close> object\<close>

text \<open>
  A \<^verbatim>\<open>Date\<close> is its time value: a number of milliseconds since the epoch, or \<^verbatim>\<open>NaN\<close>
  for an invalid date.  The functions below are the abstract operations of ECMAScript
  (\<^verbatim>\<open>Day\<close>, \<^verbatim>\<open>TimeWithinDay\<close>, \<^verbatim>\<open>DayFromYear\<close>, \<^verbatim>\<open>YearFromTime\<close>, \<^verbatim>\<open>MonthFromTime\<close>,
  \<^verbatim>\<open>DateFromTime\<close>, \<^verbatim>\<open>WeekDay\<close>, \<^verbatim>\<open>MakeTime\<close>, \<^verbatim>\<open>MakeDay\<close>, \<^verbatim>\<open>MakeDate\<close>) on whole numbers.

  Two things are fixed by the model.  Local time is UTC shifted by a constant offset
  \<open>tz\<close> in milliseconds, the first argument of every function that reads or writes
  local fields: a zone whose offset changes (daylight saving) is not covered.  Time values
  are unbounded: the limit of \<open>8.64e15\<close> milliseconds on either side of the epoch, beyond
  which ECMAScript makes a date invalid, is not modelled.
\<close>

datatype jsdate = InvalidDate | DateOf int

definition msPerDay :: int where
  "msPerDay = 86400000"

definition Day :: "int \<Rightarrow> int" where
  "Day t = t div msPerDay"

definition TimeWithinDay :: "int \<Rightarrow> int" where
  "TimeWithinDay t = t mod msPerDay"

definition DayFromYear :: "int \<Rightarrow> int" where
  "DayFromYear y = 365 * (y - 1970) + (y - 1969) div 4 - (y - 1901) div 100 + (y - 1601) div 400"

definition isLeap :: "int \<Rightarrow> bool" where
  "isLeap y = (y mod 4 = 0 \<and> (y mod 100 \<noteq> 0 \<or> y mod 400 = 0))"

definition InLeapYear :: "int \<Rightarrow> int" where
  "InLeapYear y = (if isLeap y then 1 else 0)"

text \<open>
  ECMAScript defines the year of a time value as the largest \<open>y\<close> whose first day is not
  after it.  \<open>YearFromDay\<close> computes that year from the day number: an estimate from the
  mean length of a year, corrected by at most one (lemmas \<open>YearFromDay_range\<close> and
  \<open>YearFromDay_unique\<close> below show it is that largest \<open>y\<close>).
\<close>

definition YearFromDay :: "int \<Rightarrow> int" where
  "YearFromDay d =
     (let y = 1970 + (400 * d) div 146097
      in if d < DayFromYear y then y - 1
         else if DayFromYear (y + 1) \<le> d then y + 1
         else y)"

definition DayWithinYear :: "int \<Rightarrow> int" where
  "DayWithinYear d = d - DayFromYear (YearFromDay d)"

text \<open>The number of days before month \<open>m\<close> (0 to 11) in a year with leap flag \<open>L\<close>.\<close>

definition monthStart :: "int \<Rightarrow> int \<Rightarrow> int" where
  "monthStart m L =
     (if m = 0 then 0 else if m = 1 then 31 else if m = 2 then 59 + L
      else if m = 3 then 90 + L else if m = 4 then 120 + L else if m = 5 then 151 + L
      else if m = 6 then 181 + L else if m = 7 then 212 + L else if m = 8 then 243 + L
      else if m = 9 then 273 + L else if m = 10 then 304 + L else 334 + L)"

definition MonthFromDay :: "int \<Rightarrow> int" where
  "MonthFromDay d =
     (let w = DayWithinYear d; L = InLeapYear (YearFromDay d)
      in if w < 31 then 0 else if w < 59 + L then 1 else if w < 90 + L then 2
         else if w < 120 + L then 3 else if w < 151 + L then 4 else if w < 181 + L then 5
         else if w < 212 + L then 6 else if w < 243 + L then 7 else if w < 273 + L then 8
         else if w < 304 + L then 9 else if w < 334 + L then 10 else 11)"

definition DateFromDay :: "int \<Rightarrow> int" where
  "DateFromDay d =
     DayWithinYear d - monthStart (MonthFromDay d) (InLeapYear (YearFromDay d)) + 1"

definition YearFromTime :: "int \<Rightarrow> int" where
  "YearFromTime t = YearFromDay (Day t)"

definition MonthFromTime :: "int \<Rightarrow> int" where
  "MonthFromTime t = MonthFromDay (Day t)"

definition DateFromTime :: "int \<Rightarrow> int" where
  "DateFromTime t = DateFromDay (Day t)"


definition HourFromTime :: "int \<Rightarrow> int" where
  "HourFromTime t = (t div 3600000) mod 24"

definition MinFromTime :: "int \<Rightarrow> int" where
  "MinFromTime t = (t div 60000) mod 60"

definition MakeTime :: "int \<Rightarrow> int \<Rightarrow> int \<Rightarrow> int \<Rightarrow> int" where
  "MakeTime h m s ms = h * 3600000 + m * 60000 + s * 1000 + ms"

definition MakeDay :: "int \<Rightarrow> int \<Rightarrow> int \<Rightarrow> int" where
  "MakeDay year month date =
     (let ym = year + month div 12; mn = month mod 12
      in DayFromYear ym + monthStart mn (InLeapYear ym) + date - 1)"

definition MakeDate :: "int \<Rightarrow> int \<Rightarrow> int" where
  "MakeDate day time = day * msPerDay + time"

definition LocalTime :: "int \<Rightarrow> int \<Rightarrow> int" where
  "LocalTime tz t = t + tz"

definition UTC :: "int \<Rightarrow> int \<Rightarrow> int" where
  "UTC tz t = t - tz"

text \<open>
  \<^verbatim>\<open>new Date(year, month, date, hours, minutes, seconds, ms)\<close>: any \<^verbatim>\<open>NaN\<close> argument
  gives an invalid date; a year from 0 to 99 means 1900 plus that year.
\<close>

definition newDate7 ::
  "int \<Rightarrow> jsnum \<Rightarrow> jsnum \<Rightarrow> jsnum \<Rightarrow> jsnum \<Rightarrow> jsnum \<Rightarrow> jsnum \<Rightarrow> jsnum \<Rightarrow> jsdate" where
  "newDate7 tz year month date hours minutes seconds ms =
     (case year of NaN \<Rightarrow> InvalidDate | Num y \<Rightarrow>
      case month of NaN \<Rightarrow> InvalidDate | Num m \<Rightarrow>
      case date of NaN \<Rightarrow> InvalidDate | Num dt \<Rightarrow>
      case hours of NaN \<Rightarrow> InvalidDate | Num h \<Rightarrow>
      case minutes of NaN \<Rightarrow> InvalidDate | Num mi \<Rightarrow>
      case seconds of NaN \<Rightarrow> InvalidDate | Num s \<Rightarrow>
      case ms of NaN \<Rightarrow> InvalidDate | Num milli \<Rightarrow>
        (let yr = (if 0 \<le> y \<and> y \<le> 99 then 1900 + y else y)
         in DateOf (UTC tz (MakeDate (MakeDay yr m dt) (MakeTime h mi s milli)))))"

text \<open>\<^verbatim>\<open>new Date(ms)\<close> and \<^verbatim>\<open>d.getTime()\<close>.\<close>

definition newDateMs :: "jsnum \<Rightarrow> jsdate" where
  "newDateMs x = (case x of NaN \<Rightarrow> InvalidDate | Num t \<Rightarrow> DateOf t)"

definition getTime :: "jsdate \<Rightarrow> jsnum" where
  "getTime d = (case d of InvalidDate \<Rightarrow> NaN | DateOf t \<Rightarrow> Num t)"

definition getFullYear :: "int \<Rightarrow> jsdate \<Rightarrow> jsnum" where
  "getFullYear tz d =
     (case d of InvalidDate \<Rightarrow> NaN | DateOf t \<Rightarrow> Num (YearFromTime (LocalTime tz t)))"

definition getMonth :: "int \<Rightarrow> jsdate \<Rightarrow> jsnum" where
  "getMonth tz d =
     (case d of InvalidDate \<Rightarrow> NaN | DateOf t \<Rightarrow> Num (MonthFromTime (LocalTime tz t)))"

definition getDate :: "int \<Rightarrow> jsdate \<Rightarrow> jsnum" where
  "getDate tz d =
     (case d of InvalidDate \<Rightarrow> NaN | DateOf t \<Rightarrow> Num (DateFromTime (LocalTime tz t)))"


definition getHours :: "int \<Rightarrow> jsdate \<Rightarrow> jsnum" where
  "getHours tz d =
     (case d of InvalidDate \<Rightarrow> NaN | DateOf t \<Rightarrow> Num (HourFromTime (LocalTime tz t)))"

definition getMinutes :: "int \<Rightarrow> jsdate \<Rightarrow> jsnum" where
  "getMinutes tz d =
     (case d of InvalidDate \<Rightarrow> NaN | DateOf t \<Rightarrow> Num (MinFromTime (LocalTime tz t)))"


definition setDate :: "int \<Rightarrow> jsdate \<Rightarrow> jsnum \<Rightarrow> jsdate" where
  "setDate tz d dt =
     (case d of
        InvalidDate \<Rightarrow> InvalidDate
      | DateOf t \<Rightarrow>
          (case dt of
             NaN \<Rightarrow> InvalidDate
           | Num n \<Rightarrow>
               (let lt = LocalTime tz t
                in DateOf (UTC tz (MakeDate (MakeDay (YearFromTime lt) (MonthFromTime lt) n)
                                            (TimeWithinDay lt))))))"

text \<open>\<^verbatim>\<open>end - start\<close> on two dates: the difference of the time values.\<close>

definition date_minus :: "jsdate \<Rightarrow> jsdate \<Rightarrow> jsnum" where
  "date_minus e s = js_minus (getTime e) (getTime s)"

section \<open>The web client\<close>

text \<open>
  A task as the client reads it from the server's JSON.  A field that is \<^verbatim>\<open>null\<close>,
  absent or the empty string (all falsy) is \<open>None\<close>.  \<open>planned_start\<close> and \<open>planned_end\<close>
  arrive as strings and are only ever read through \<^verbatim>\<open>new Date(field)\<close>; the record
  holds that \<^verbatim>\<open>Date\<close>.  \<open>task_id\<close> is \<^verbatim>\<open>String(task.id)\<close> and
  \<open>task_notes\<close> is \<^verbatim>\<open>task.notes\<close>.
\<close>

record task =
  task_id :: string
  title :: string
  task_notes :: "string option"
  priority :: "int option"
  planned_start :: "jsdate option"
  planned_end :: "jsdate option"
  estimate_minutes :: "int option"
  is_done :: bool

subsection \<open>Formatting and parsing\<close>

text \<open>
  \<^verbatim>\<open>
  function formatDateInput(dateObj) {
    const year = dateObj.getFullYear();
    const month = String(dateObj.getMonth() + 1).padStart(2, '0');
    const day = String(dateObj.getDate()).padStart(2, '0');
    return `${year}-${month}-${day}`;
  }
  \<close>
  \<^verbatim>\<open>isoDate\<close> has the same body.
\<close>

definition formatDateInput :: "int \<Rightarrow> jsdate \<Rightarrow> string" where
  "formatDateInput tz dateObj =
     (let year = getFullYear tz dateObj;
          month = padStart2 (js_String (js_plus (getMonth tz dateObj) (Num 1)));
          day = padStart2 (js_String (getDate tz dateObj))
      in js_String year @ ''-'' @ month @ ''-'' @ day)"

definition isoDate :: "int \<Rightarrow> jsdate \<Rightarrow> string" where
  "isoDate tz date = formatDateInput tz date"

definition formatTimeInput :: "jsnum \<Rightarrow> jsnum \<Rightarrow> string" where
  "formatTimeInput hour minute = padStart2 (js_String hour) @ '':'' @ padStart2 (js_String minute)"

text \<open>
  \<^verbatim>\<open>
  function getTaskDurationMinutes(task) {
    if (task.planned_start && task.planned_end) {
      const start = new Date(task.planned_start);
      const end = new Date(task.planned_end);
      const diff = Math.round((end - start) / 60000);
      if (diff > 0) return diff;
    }
    return task.estimate_minutes || 30;
  }
  \<close>
\<close>

definition getTaskDurationMinutes :: "task \<Rightarrow> int" where
  "getTaskDurationMinutes task =
     (let fallback = js_or (estimate_minutes task) 30 in
      case (planned_start task, planned_end task) of
        (Some start_d, Some end_d) \<Rightarrow>
          (case date_minus end_d start_d of
             NaN \<Rightarrow> fallback
           | Num ms \<Rightarrow>
               (let diff = Math_round (real_of_int ms / 60000)
                in if diff > 0 then diff else fallback))
      | _ \<Rightarrow> fallback)"

text \<open>
  \<^verbatim>\<open>
  function parseLocalDateTime(dateValue, timeValue) {
    if (!dateValue || !timeValue) return null;
    const [year, month, day] = dateValue.split('-').map(Number);
    const [hour, minute] = timeValue.split(':').map(Number);
    if (!year || !month || !day) return null;
    if (Number.isNaN(hour) || Number.isNaN(minute)) return null;
    return new Date(year, month - 1, day, hour, minute, 0, 0);
  }
  \<close>
  \<open>nth_opt xs i\<close> is the destructured element \<open>i\<close>, \<^verbatim>\<open>undefined\<close> past the end.
\<close>

definition nth_opt :: "'a list \<Rightarrow> nat \<Rightarrow> 'a option" where
  "nth_opt xs i = (if i < length xs then Some (xs ! i) else None)"

definition parseLocalDateTime :: "int \<Rightarrow> string \<Rightarrow> string \<Rightarrow> jsdate option" where
  "parseLocalDateTime tz dateValue timeValue =
     (if dateValue = [] \<or> timeValue = [] then None
      else
        let ds = map js_Number (split_on CHR ''-'' dateValue);
            ts = map js_Number (split_on CHR '':'' timeValue);
            year = nth_opt ds 0; month = nth_opt ds 1; day = nth_opt ds 2;
            hour = nth_opt ts 0; minute = nth_opt ts 1
        in if falsy year \<or> falsy month \<or> falsy day then None
           else if Number_isNaN hour \<or> Number_isNaN minute then None
           else Some (newDate7 tz (ToNumber year) (js_minus (ToNumber month) (Num 1)) (ToNumber day)
                        (ToNumber hour) (ToNumber minute) (Num 0) (Num 0)))"

text \<open>
  \<^verbatim>\<open>
  function toLocalIsoString(dateObj) {
    return [
      `${dateObj.getFullYear()}-${String(dateObj.getMonth() + 1).padStart(2, '0')}-${String(
        dateObj.getDate(),
      ).padStart(2, '0')}`,
      `${String(dateObj.getHours()).padStart(2, '0')}:${String(dateObj.getMinutes()).padStart(2, '0')}:00`,
    ].join('T');
  }
  \<close>
\<close>

definition toLocalIsoString :: "int \<Rightarrow> jsdate \<Rightarrow> string" where
  "toLocalIsoString tz dateObj =
     js_String (getFullYear tz dateObj) @ ''-''
       @ padStart2 (js_String (js_plus (getMonth tz dateObj) (Num 1))) @ ''-''
       @ padStart2 (js_String (getDate tz dateObj))
       @ ''T''
       @ padStart2 (js_String (getHours tz dateObj)) @ '':''
       @ padStart2 (js_String (getMinutes tz dateObj)) @ '':00''"


text \<open>
  \<^verbatim>\<open>
  function addDays(date, offset) {
    const d = new Date(date);
    d.setDate(d.getDate() + offset);
    return d;
  }
  \<close>
\<close>

definition addDays :: "int \<Rightarrow> jsdate \<Rightarrow> int \<Rightarrow> jsdate" where
  "addDays tz date offset = setDate tz date (js_plus (getDate tz date) (Num offset))"

subsection \<open>Requests and the state the handlers read\<close>

text \<open>
  \<^verbatim>\<open>patchTask(taskId, payload)\<close> sends \<^verbatim>\<open>PATCH /tasks/{taskId}\<close> with the payload as JSON
  and \<^verbatim>\<open>deleteTask(taskId)\<close> sends \<^verbatim>\<open>DELETE /tasks/{taskId}\<close>.  A payload is the object
  literal of the call, field by field; a handler is modelled by the list of requests it
  issues, empty where it returns early.
\<close>

datatype json = JNull | JStr string | JNum int | JBool bool

type_synonym payload = "(string \<times> json) list"

datatype request = PATCH string payload | DELETE string

text \<open>
  The globals the handlers read: the task index (a \<^verbatim>\<open>Map\<close> keyed by \<^verbatim>\<open>String(task.id)\<close>),
  the selected task id (\<open>None\<close> when falsy) and the values of the three inputs of the
  move form.
\<close>

record ui =
  taskIndex :: "string \<Rightarrow> task option"
  selectedTaskId :: "string option"
  moveDate :: string
  moveTime :: string
  moveMinutes :: string

text \<open>
  \<^verbatim>\<open>
  function getSelectedTask() {
    if (!selectedTaskId) return null;
    return taskIndex.get(String(selectedTaskId)) || null;
  }
  \<close>
\<close>

definition getSelectedTask :: "ui \<Rightarrow> task option" where
  "getSelectedTask st = (case selectedTaskId st of None \<Rightarrow> None | Some i \<Rightarrow> taskIndex st i)"





subsection \<open>Handlers that place a task\<close>

text \<open>
  \<^verbatim>\<open>
  async function handleDropOnDay(event, dateStr) {
    const taskId = event.dataTransfer.getData('text/task-id') || event.dataTransfer.getData('text/plain');
    if (!taskId) return;
    const task = taskIndex.get(String(taskId));
    if (!task) return;
    const [year, month, day] = dateStr.split('-').map(Number);
    if (!year || !month || !day) return;
    let hour = 9;
    let minute = 0;
    if (task.planned_start) {
      const current = new Date(task.planned_start);
      hour = current.getHours();
      minute = current.getMinutes();
    }
    const start = new Date(year, month - 1, day, hour, minute, 0, 0);
    const duration = getTaskDurationMinutes(task);
    const end = new Date(start.getTime() + duration * 60000);
    await runAction(..., async () => {
      await patchTask(task.id, {
        planned_start: toLocalIsoString(start),
        planned_end: toLocalIsoString(end),
        schedule_source: 'manual',
      });
    });
  }
  \<close>
  \<open>taskId\<close> is the dragged id the event carries (the second client reads it through
  \<^verbatim>\<open>getDraggedTaskId\<close>), empty when falsy.
\<close>

definition handleDropOnDay :: "int \<Rightarrow> ui \<Rightarrow> string \<Rightarrow> string \<Rightarrow> request list" where
  "handleDropOnDay tz st taskId dateStr =
     (if taskId = [] then []
      else case taskIndex st taskId of
        None \<Rightarrow> []
      | Some task \<Rightarrow>
          (let ds = map js_Number (split_on CHR ''-'' dateStr);
               year = nth_opt ds 0; month = nth_opt ds 1; day = nth_opt ds 2
           in if falsy year \<or> falsy month \<or> falsy day then []
              else
                let hour = (case planned_start task of
                              None \<Rightarrow> Num 9 | Some current \<Rightarrow> getHours tz current);
                    minute = (case planned_start task of
                              None \<Rightarrow> Num 0 | Some current \<Rightarrow> getMinutes tz current);
                    start = newDate7 tz (ToNumber year) (js_minus (ToNumber month) (Num 1))
                              (ToNumber day) hour minute (Num 0) (Num 0);
                    duration = getTaskDurationMinutes task;
                    end_d = newDateMs (js_plus (getTime start) (js_times (Num duration) (Num 60000)))
                in [PATCH (task_id task)
                      [(''planned_start'', JStr (toLocalIsoString tz start)),
                       (''planned_end'', JStr (toLocalIsoString tz end_d)),
                       (''schedule_source'', JStr ''manual'')]]))"

text \<open>
  \<^verbatim>\<open>
  async function handleDropOnSlot(event, dateStr, timeStr) {
    const taskId = ...;
    if (!taskId) return;
    const task = taskIndex.get(String(taskId));
    if (!task) return;
    const start = parseLocalDateTime(dateStr, timeStr);
    if (!start) return;
    const duration = getTaskDurationMinutes(task);
    const end = new Date(start.getTime() + duration * 60000);
    await runAction(..., async () => {
      await patchTask(task.id, {
        planned_start: toLocalIsoString(start),
        planned_end: toLocalIsoString(end),
        schedule_source: 'manual',
      });
    });
  }
  \<close>
\<close>

definition handleDropOnSlot :: "int \<Rightarrow> ui \<Rightarrow> string \<Rightarrow> string \<Rightarrow> string \<Rightarrow> request list" where
  "handleDropOnSlot tz st taskId dateStr timeStr =
     (if taskId = [] then []
      else case taskIndex st taskId of
        None \<Rightarrow> []
      | Some task \<Rightarrow>
          (case parseLocalDateTime tz dateStr timeStr of
             None \<Rightarrow> []
           | Some start \<Rightarrow>
               (let duration = getTaskDurationMinutes task;
                    end_d = newDateMs (js_plus (getTime start) (js_times (Num duration) (Num 60000)))
                in [PATCH (task_id task)
                      [(''planned_start'', JStr (toLocalIsoString tz start)),
                       (''planned_end'', JStr (toLocalIsoString tz end_d)),
                       (''schedule_source'', JStr ''manual'')]])))"

text \<open>
  The second client drops a task on another task:
  \<^verbatim>\<open>
  async function handleDropOnTask(event, targetTaskId) {
    const taskId = getDraggedTaskId(event);
    if (!taskId || taskId === String(targetTaskId)) return;
    const task = taskIndex.get(String(taskId));
    const target = taskIndex.get(String(targetTaskId));
    if (!task || !target || !target.planned_start) return;
    const targetStart = new Date(target.planned_start);
    const targetEnd = target.planned_end
      ? new Date(target.planned_end)
      : new Date(targetStart.getTime() + getTaskDurationMinutes(target) * 60000);
    if (task.planned_start && task.planned_end) {
      const taskStart = new Date(task.planned_start);
      const taskEnd = new Date(task.planned_end);
      if (isoDate(taskStart) === isoDate(targetStart)) {
        await runAction(..., async () => {
          await patchTask(task.id, {
            planned_start: toLocalIsoString(targetStart),
            planned_end: toLocalIsoString(targetEnd || targetStart),
            schedule_source: 'manual',
          });
          await patchTask(target.id, {
            planned_start: toLocalIsoString(taskStart),
            planned_end: toLocalIsoString(taskEnd),
            schedule_source: 'manual',
          });
        });
        return;
      }
    }
    const duration = getTaskDurationMinutes(task);
    const end = new Date(targetStart.getTime() + duration * 60000);
    await runAction(..., async () => {
      await patchTask(task.id, {
        planned_start: toLocalIsoString(targetStart),
        planned_end: toLocalIsoString(end),
        schedule_source: 'manual',
      });
    });
  }
  \<close>
  \<^verbatim>\<open>targetEnd\<close> is an object and so truthy: \<^verbatim>\<open>targetEnd || targetStart\<close> is \<^verbatim>\<open>targetEnd\<close>.
\<close>

definition handleDropOnTask :: "int \<Rightarrow> ui \<Rightarrow> string \<Rightarrow> string \<Rightarrow> request list" where
  "handleDropOnTask tz st taskId targetTaskId =
     (if taskId = [] \<or> taskId = targetTaskId then []
      else case (taskIndex st taskId, taskIndex st targetTaskId) of
        (Some task, Some target) \<Rightarrow>
          (case planned_start target of
             None \<Rightarrow> []
           | Some targetStart \<Rightarrow>
               (let targetEnd =
                      (case planned_end target of
                         Some e \<Rightarrow> e
                       | None \<Rightarrow> newDateMs (js_plus (getTime targetStart)
                                    (js_times (Num (getTaskDurationMinutes target)) (Num 60000))));
                    duration = getTaskDurationMinutes task;
                    end_d = newDateMs (js_plus (getTime targetStart)
                                    (js_times (Num duration) (Num 60000)));
                    move = [PATCH (task_id task)
                              [(''planned_start'', JStr (toLocalIsoString tz targetStart)),
                               (''planned_end'', JStr (toLocalIsoString tz end_d)),
                               (''schedule_source'', JStr ''manual'')]]
                in case (planned_start task, planned_end task) of
                     (Some taskStart, Some taskEnd) \<Rightarrow>
                       if isoDate tz taskStart = isoDate tz targetStart
                       then [PATCH (task_id task)
                               [(''planned_start'', JStr (toLocalIsoString tz targetStart)),
                                (''planned_end'', JStr (toLocalIsoString tz targetEnd)),
                                (''schedule_source'', JStr ''manual'')],
                             PATCH (task_id target)
                               [(''planned_start'', JStr (toLocalIsoString tz taskStart)),
                                (''planned_end'', JStr (toLocalIsoString tz taskEnd)),
                                (''schedule_source'', JStr ''manual'')]]
                       else move
                   | _ \<Rightarrow> move))
      | _ \<Rightarrow> [])"

text \<open>
  The inline time edit.  \<^verbatim>\<open>startTimeEdit(task, item, timeEl)\<close> returns at once when the
  item is already being edited or no day is known; otherwise the input's \<^verbatim>\<open>blur\<close> or
  \<^verbatim>\<open>Escape\<close> runs \<^verbatim>\<open>finalize(save)\<close>:
  \<^verbatim>\<open>
  if (item.classList.contains('editing')) return;
  const baseDate = task.planned_start ? new Date(task.planned_start) : null;
  const fallbackDay = item.dataset.day ? new Date(item.dataset.day) : null;
  const day = baseDate || fallbackDay;
  if (!day) { setStatus(...); return; }
  ...
  const finalize = async (save) => {
    ...
    if (!save) return;
    const value = input.value;
    if (!value) return;
    const start = parseLocalDateTime(formatDateInput(day), value);
    if (!start) return;
    const duration = getTaskDurationMinutes(task);
    const end = new Date(start.getTime() + duration * 60000);
    await runAction(..., async () => {
      await patchTask(task.id, {
        planned_start: toLocalIsoString(start),
        planned_end: toLocalIsoString(end),
        schedule_source: 'manual',
      });
    });
  };
  \<close>
  \<open>fallbackDay\<close> is the \<^verbatim>\<open>Date\<close> that \<^verbatim>\<open>new Date(item.dataset.day)\<close> gives, \<open>None\<close> when
  the item carries no day.
\<close>

definition timeEdit ::
  "int \<Rightarrow> task \<Rightarrow> bool \<Rightarrow> jsdate option \<Rightarrow> bool \<Rightarrow> string \<Rightarrow> request list" where
  "timeEdit tz task editing fallbackDay save val =
     (if editing then []
      else case (case planned_start task of Some b \<Rightarrow> Some b | None \<Rightarrow> fallbackDay) of
        None \<Rightarrow> []
      | Some day \<Rightarrow>
          if \<not> save then []
          else if val = [] then []
          else case parseLocalDateTime tz (formatDateInput tz day) val of
            None \<Rightarrow> []
          | Some start \<Rightarrow>
              (let duration = getTaskDurationMinutes task;
                   end_d = newDateMs (js_plus (getTime start) (js_times (Num duration) (Num 60000)))
               in [PATCH (task_id task)
                     [(''planned_start'', JStr (toLocalIsoString tz start)),
                      (''planned_end'', JStr (toLocalIsoString tz end_d)),
                      (''schedule_source'', JStr ''manual'')]]))"

text \<open>
  \<^verbatim>\<open>
  async function handleMove() {
    const task = getSelectedTask();
    if (!task) { setStatus(...); return; }
    const dateValue = moveDateInput.value;
    const timeValue = moveTimeInput.value;
    if (!dateValue || !timeValue) { setStatus(...); return; }
    const start = parseLocalDateTime(dateValue, timeValue);
    if (!start) { setStatus(...); return; }
    const minutes = parseInt(moveMinutesInput.value, 10) || getTaskDurationMinutes(task);
    const end = new Date(start.getTime() + minutes * 60000);
    await runAction(..., async () => {
      await patchTask(task.id, {
        planned_start: toLocalIsoString(start),
        planned_end: toLocalIsoString(end),
        schedule_source: 'manual',
      });
    });
  }
  \<close>
\<close>

definition handleMove :: "int \<Rightarrow> ui \<Rightarrow> request list" where
  "handleMove tz st =
     (case getSelectedTask st of
        None \<Rightarrow> []
      | Some task \<Rightarrow>
          (let dateValue = moveDate st; timeValue = moveTime st
           in if dateValue = [] \<or> timeValue = [] then []
              else case parseLocalDateTime tz dateValue timeValue of
                None \<Rightarrow> []
              | Some start \<Rightarrow>
                  (let minutes = js_or_num (parseInt10 (moveMinutes st))
                                   (getTaskDurationMinutes task);
                       end_d = newDateMs (js_plus (getTime start)
                                   (js_times (Num minutes) (Num 60000)))
                   in [PATCH (task_id task)
                         [(''planned_start'', JStr (toLocalIsoString tz start)),
                          (''planned_end'', JStr (toLocalIsoString tz end_d)),
                          (''schedule_source'', JStr ''manual'')]])))"

subsection \<open>Handlers that return a task to the backlog\<close>

text \<open>
  \<^verbatim>\<open>
  async function handleUnschedule() {
    const task = getSelectedTask();
    if (!task) { setStatus(...); return; }
    await runAction(..., async () => {
      await patchTask(task.id, { planned_start: null, planned_end: null, schedule_source: 'manual' });
    });
  }
  async function handleDropOnBacklog(event) {
    const taskId = ...;
    if (!taskId) return;
    const task = taskIndex.get(String(taskId));
    if (!task || !task.planned_start) return;
    await runAction(..., async () => {
      await patchTask(task.id, { planned_start: null, planned_end: null, schedule_source: 'manual' });
    });
  }
  \<close>
\<close>

definition handleUnschedule :: "ui \<Rightarrow> request list" where
  "handleUnschedule st =
     (case getSelectedTask st of
        None \<Rightarrow> []
      | Some task \<Rightarrow>
          [PATCH (task_id task)
             [(''planned_start'', JNull), (''planned_end'', JNull),
              (''schedule_source'', JStr ''manual'')]])"

definition handleDropOnBacklog :: "ui \<Rightarrow> string \<Rightarrow> request list" where
  "handleDropOnBacklog st taskId =
     (if taskId = [] then []
      else case taskIndex st taskId of
        None \<Rightarrow> []
      | Some task \<Rightarrow>
          if planned_start task = None then []
          else [PATCH (task_id task)
                  [(''planned_start'', JNull), (''planned_end'', JNull),
                   (''schedule_source'', JStr ''manual'')]])"

subsection \<open>The other mutations\<close>

text \<open>
  The click handler installed by \<^verbatim>\<open>createPriorityElement\<close>:
  \<^verbatim>\<open>
  const current = task.priority || 2;
  const next = current >= 3 ? 1 : current + 1;
  await runAction(..., async () => {
    await patchTask(task.id, { priority: next });
  });
  \<close>
\<close>

definition nextPriority :: "task \<Rightarrow> int" where
  "nextPriority task =
     (let current = js_or (priority task) 2
      in if current \<ge> 3 then 1 else current + 1)"

definition priorityClick :: "task \<Rightarrow> request list" where
  "priorityClick task = [PATCH (task_id task) [(''priority'', JNum (nextPriority task))]]"

text \<open>
  The title and notes edits (\<^verbatim>\<open>startTitleEdit\<close>, \<^verbatim>\<open>startNotesEdit\<close>) with their
  \<^verbatim>\<open>finalize(save)\<close>:
  \<^verbatim>\<open>
  const newTitle = input.value.trim();
  if (!save || !newTitle || newTitle === task.title) return;
  await patchTask(task.id, { title: newTitle });
  \<close>
  \<^verbatim>\<open>
  if (!save) return;
  const value = textarea.value.trim();
  const nextNotes = value.length ? value : null;
  if ((task.notes || null) === nextNotes) return;
  await patchTask(task.id, { notes: nextNotes });
  \<close>
\<close>

definition titleEdit :: "task \<Rightarrow> bool \<Rightarrow> bool \<Rightarrow> string \<Rightarrow> request list" where
  "titleEdit task editing save val =
     (if editing then []
      else let newTitle = trim val
           in if \<not> save \<or> newTitle = [] \<or> newTitle = title task then []
              else [PATCH (task_id task) [(''title'', JStr newTitle)]])"

definition notesEdit :: "task \<Rightarrow> bool \<Rightarrow> bool \<Rightarrow> string \<Rightarrow> request list" where
  "notesEdit task editing save val =
     (if editing then []
      else if \<not> save then []
      else let v = trim val;
               nextNotes = (if v \<noteq> [] then Some v else None)
           in if task_notes task = nextNotes then []
              else [PATCH (task_id task)
                      [(''notes'', case nextNotes of None \<Rightarrow> JNull | Some s \<Rightarrow> JStr s)]])"

text \<open>
  \<^verbatim>\<open>
  async function handleMarkDone() {
    const task = getSelectedTask();
    if (!task) { setStatus(...); return; }
    const nextDone = !task.is_done;
    await runAction(label, async () => {
      await patchTask(task.id, { is_done: nextDone });
    });
  }
  async function handleDelete() {
    const task = getSelectedTask();
    if (!task) { setStatus(...); return; }
    if (!window.confirm(...)) return;
    await runAction(..., async () => {
      await deleteTask(task.id);
      clearSelection();
    });
  }
  \<close>
\<close>

definition handleMarkDone :: "ui \<Rightarrow> request list" where
  "handleMarkDone st =
     (case getSelectedTask st of
        None \<Rightarrow> []
      | Some task \<Rightarrow> [PATCH (task_id task) [(''is_done'', JBool (\<not> is_done task))]])"

definition handleDelete :: "ui \<Rightarrow> bool \<Rightarrow> request list" where
  "handleDelete st confirmed =
     (case getSelectedTask st of
        None \<Rightarrow> []
      | Some task \<Rightarrow> if \<not> confirmed then [] else [DELETE (task_id task)])"

subsection \<open>Every action of the user\<close>

text \<open>
  The event listeners the two clients install, one constructor each, with what the event
  carries: the dragged task id and the drop target; the task of the element clicked or
  edited, whether its item is already being edited, whether the edit is saved and the
  text entered; the answer to the confirmation of a deletion.
\<close>

datatype action =
    DropOnDay string string
  | DropOnSlot string string string
  | DropOnTask string string
  | DropOnBacklog string
  | TimeEdit task bool "jsdate option" bool string
  | MoveForm
  | UnscheduleButton
  | PriorityClick task
  | TitleEdit task bool bool string
  | NotesEdit task bool bool string
  | MarkDoneButton
  | DeleteButton bool

fun requests_of :: "int \<Rightarrow> ui \<Rightarrow> action \<Rightarrow> request list" where
  "requests_of tz st (DropOnDay taskId dateStr) = handleDropOnDay tz st taskId dateStr"
| "requests_of tz st (DropOnSlot taskId dateStr timeStr) = handleDropOnSlot tz st taskId dateStr timeStr"
| "requests_of tz st (DropOnTask taskId targetTaskId) = handleDropOnTask tz st taskId targetTaskId"
| "requests_of tz st (DropOnBacklog taskId) = handleDropOnBacklog st taskId"
| "requests_of tz st (TimeEdit task editing fallbackDay save val) =
     timeEdit tz task editing fallbackDay save val"
| "requests_of tz st MoveForm = handleMove tz st"
| "requests_of tz st UnscheduleButton = handleUnschedule st"
| "requests_of tz st (PriorityClick task) = priorityClick task"
| "requests_of tz st (TitleEdit task editing save val) = titleEdit task editing save val"
| "requests_of tz st (NotesEdit task editing save val) = notesEdit task editing save val"
| "requests_of tz st MarkDoneButton = handleMarkDone st"
| "requests_of tz st (DeleteButton confirmed) = handleDelete st confirmed"

text \<open>The value a payload gives a field, \<open>None\<close> when the payload does not mention it.\<close>

definition field :: "payload \<Rightarrow> string \<Rightarrow> json option" where
  "field p k = map_of p k"

definition touches_placement :: "payload \<Rightarrow> bool" where
  "touches_placement p = (field p ''planned_start'' \<noteq> None \<or> field p ''planned_end'' \<noteq> None)"

section \<open>The planning engine\<close>

text \<open>
  The engine (Anchor Resolver, Free-Time Calculator, Slot Finder, Autoplan Engine and the
  placement endpoint) runs on the server, whose code is not among the sources: the
  sources hold the web clients that call it.  Every definition of this section is
  therefore modelled from the specification, section by section, and says so.

  Times are whole minutes since the epoch; day \<open>d\<close> spans the minutes from \<open>1440 * d\<close> to
  \<open>1440 * (d + 1)\<close>.  An interval \<open>(s, e)\<close> is half open.
\<close>

subsection \<open>Data model\<close>

text \<open>
  Modelled from the spec: the \<^verbatim>\<open>Task\<close> of section 3 (the server's task table is
  missing).  \<open>planned_start\<close> and \<open>planned_end\<close> are an optional pair, both set or both
  absent, so the record holds one optional pair \<open>t_planned\<close>.
\<close>

datatype task_type = UserTask | AnchorTask | SystemTask

datatype kind = Workout | Meal | Morning | Work | Other

datatype schedule_source = Manual | Autoplan

text \<open>
  Modelled from the spec: the anchor keys \<^verbatim>\<open>routine:<step_id>:<day>\<close> and
  \<^verbatim>\<open>meal:<name>:<day>\<close> of section 4.1, by their parts.
\<close>

datatype anchor_key = RoutineKey nat int | MealKey string int

record etask =
  t_id :: nat
  t_user :: nat
  t_type :: task_type
  t_kind :: kind
  t_title :: string
  t_priority :: nat
  t_planned :: "(int \<times> int) option"
  t_estimate :: "nat option"
  t_done :: bool
  t_anchor_key :: "anchor_key option"
  t_source :: "schedule_source option"

text \<open>
  Modelled from the spec: \<^verbatim>\<open>RoutineStep\<close>, the meal anchors, \<^verbatim>\<open>WorkoutPolicy\<close> and the
  Routine Config of sections 2 and 3 (the server's configuration tables are missing).
\<close>

record routine_step =
  step_id :: nat
  step_offset :: nat
  step_duration :: nat
  step_title :: string
  step_kind :: kind

record meal_anchor =
  meal_name :: string
  meal_offset :: nat
  meal_duration :: nat

record workout_policy =
  target_days :: nat
  session_duration :: nat
  travel_oneway_min :: nat

record routine_config =
  routine_steps :: "routine_step list"
  meal_anchors :: "meal_anchor list"
  workout :: workout_policy

text \<open>
  Modelled from the spec: the Task Repository of section 6 (missing), as the list of its
  rows in creation order.
\<close>

type_synonym store = "etask list"

type_synonym interval = "int \<times> int"

definition day_start :: "int \<Rightarrow> int" where
  "day_start d = 1440 * d"

definition overlaps :: "interval \<Rightarrow> interval \<Rightarrow> bool" where
  "overlaps p q = (fst p < snd q \<and> fst q < snd p)"

subsection \<open>Anchor Resolver\<close>

text \<open>
  Modelled from the spec: section 4.1 (the server's anchor resolver is missing).  For
  each routine step, and likewise for each meal anchor, the anchor of the day starts at
  the day's start plus the offset and ends a duration later.
\<close>

record anchor_spec =
  a_key :: anchor_key
  a_title :: string
  a_kind :: kind
  a_start :: int
  a_end :: int
  a_duration :: nat

definition step_anchor :: "int \<Rightarrow> routine_step \<Rightarrow> anchor_spec" where
  "step_anchor day st =
     \<lparr>a_key = RoutineKey (step_id st) day, a_title = step_title st, a_kind = step_kind st,
      a_start = day_start day + int (step_offset st),
      a_end = day_start day + int (step_offset st) + int (step_duration st),
      a_duration = step_duration st\<rparr>"

definition meal_anchor_spec :: "int \<Rightarrow> meal_anchor \<Rightarrow> anchor_spec" where
  "meal_anchor_spec day m =
     \<lparr>a_key = MealKey (meal_name m) day, a_title = meal_name m, a_kind = Meal,
      a_start = day_start day + int (meal_offset m),
      a_end = day_start day + int (meal_offset m) + int (meal_duration m),
      a_duration = meal_duration m\<rparr>"

definition anchor_specs :: "routine_config \<Rightarrow> int \<Rightarrow> anchor_spec list" where
  "anchor_specs cfg day =
     map (step_anchor day) (routine_steps cfg) @ map (meal_anchor_spec day) (meal_anchors cfg)"

text \<open>
  Modelled from the spec: the upsert of section 4.1 (\<^verbatim>\<open>upsertByAnchorKey\<close> of section 6,
  missing).  If a task with that user and anchor key exists, its placement is left
  untouched and only the descriptive fields (title, duration) follow the routine config;
  otherwise a new anchor task is inserted with \<open>schedule_source\<close> autoplan.  The row is
  returned.
\<close>

definition matches :: "nat \<Rightarrow> anchor_key \<Rightarrow> etask \<Rightarrow> bool" where
  "matches u k t = (t_user t = u \<and> t_anchor_key t = Some k)"

definition describe :: "anchor_spec \<Rightarrow> etask \<Rightarrow> etask" where
  "describe sp t = t\<lparr>t_title := a_title sp, t_estimate := Some (a_duration sp)\<rparr>"

definition fresh_id :: "store \<Rightarrow> nat" where
  "fresh_id s = Suc (fold max (map t_id s) 0)"

definition new_anchor :: "nat \<Rightarrow> anchor_spec \<Rightarrow> store \<Rightarrow> etask" where
  "new_anchor u sp s =
     \<lparr>t_id = fresh_id s, t_user = u, t_type = AnchorTask, t_kind = a_kind sp,
      t_title = a_title sp, t_priority = 2, t_planned = Some (a_start sp, a_end sp),
      t_estimate = Some (a_duration sp), t_done = False, t_anchor_key = Some (a_key sp),
      t_source = Some Autoplan\<rparr>"

definition upsertByAnchorKey :: "nat \<Rightarrow> anchor_spec \<Rightarrow> store \<Rightarrow> store \<times> etask" where
  "upsertByAnchorKey u sp s =
     (case find (matches u (a_key sp)) s of
        Some t \<Rightarrow>
          (map (\<lambda>x. if matches u (a_key sp) x then describe sp x else x) s, describe sp t)
      | None \<Rightarrow> (s @ [new_anchor u sp s], new_anchor u sp s))"

fun upsert_all :: "nat \<Rightarrow> anchor_spec list \<Rightarrow> store \<Rightarrow> store \<times> etask list" where
  "upsert_all u [] s = (s, [])"
| "upsert_all u (sp # sps) s =
     (let (s1, r) = upsertByAnchorKey u sp s;
          (s2, rs) = upsert_all u sps s1
      in (s2, r # rs))"

definition ensureAnchors :: "routine_config \<Rightarrow> nat \<Rightarrow> int \<Rightarrow> store \<Rightarrow> store \<times> etask list" where
  "ensureAnchors cfg u day s = upsert_all u (anchor_specs cfg day) s"

subsection \<open>Free-Time Calculator\<close>

text \<open>
  Modelled from the spec: section 4.2 (the server's free-time calculator is missing).
  The occupied intervals are sorted by start, overlapping or adjacent ones are merged,
  and the merged intervals are subtracted from the span; zero-length gaps are omitted.
\<close>

fun merge_intervals :: "interval list \<Rightarrow> interval list" where
  "merge_intervals [] = []"
| "merge_intervals [p] = [p]"
| "merge_intervals (p # q # rest) =
     (if fst q \<le> snd p then merge_intervals ((fst p, max (snd p) (snd q)) # rest)
      else p # merge_intervals (q # rest))"

definition cut :: "interval \<Rightarrow> interval \<Rightarrow> interval list" where
  "cut occ f =
     (if fst f < min (snd f) (fst occ) then [(fst f, min (snd f) (fst occ))] else [])
     @ (if max (fst f) (snd occ) < snd f then [(max (fst f) (snd occ), snd f)] else [])"

definition subtract :: "interval \<Rightarrow> interval list \<Rightarrow> interval list" where
  "subtract occ fs = concat (map (cut occ) fs)"

definition freeIntervals :: "int \<Rightarrow> int \<Rightarrow> interval list \<Rightarrow> interval list" where
  "freeIntervals lo hi occupied =
     fold subtract (merge_intervals (sort_key fst occupied)) (if lo < hi then [(lo, hi)] else [])"

subsection \<open>Slot Finder\<close>

text \<open>
  Modelled from the spec: section 4.3 (the server's slot finder is missing).  The
  duration of a task comes from its planned pair, or from \<open>estimate_minutes\<close>, and is 30
  when both are absent.  A workout needs \<open>max S (2 * T + S)\<close> minutes for a session of
  \<open>S\<close> minutes and a one-way travel of \<open>T\<close>; the session is stored alone, a travel margin
  after the start of the free interval.  The earliest free interval that is long enough
  wins, except that a workout may not start exactly where a meal anchor ends: then the
  next interval is tried.
\<close>

definition task_duration :: "etask \<Rightarrow> nat" where
  "task_duration t =
     (case t_planned t of
        Some (s, e) \<Rightarrow> nat (e - s)
      | None \<Rightarrow> (case t_estimate t of Some m \<Rightarrow> m | None \<Rightarrow> 30))"

definition required_length :: "workout_policy \<Rightarrow> etask \<Rightarrow> nat" where
  "required_length pol t =
     (if t_kind t = Workout
      then max (session_duration pol) (2 * travel_oneway_min pol + session_duration pol)
      else task_duration t)"

definition stored_length :: "workout_policy \<Rightarrow> etask \<Rightarrow> nat" where
  "stored_length pol t = (if t_kind t = Workout then session_duration pol else task_duration t)"

definition lead_margin :: "workout_policy \<Rightarrow> etask \<Rightarrow> nat" where
  "lead_margin pol t = (if t_kind t = Workout then travel_oneway_min pol else 0)"

fun findSlot :: "workout_policy \<Rightarrow> int list \<Rightarrow> etask \<Rightarrow> interval list \<Rightarrow> interval option" where
  "findSlot pol meal_ends t [] = None"
| "findSlot pol meal_ends t (f # fs) =
     (let start = fst f + int (lead_margin pol t)
      in if int (required_length pol t) \<le> snd f - fst f
            \<and> \<not> (t_kind t = Workout \<and> start \<in> set meal_ends)
         then Some (start, start + int (stored_length pol t))
         else findSlot pol meal_ends t fs)"

subsection \<open>Placement\<close>

text \<open>
  Modelled from the spec: the mutation endpoint of sections 5, 6 and 7 (the server's
  handler of \<^verbatim>\<open>PATCH /tasks/{id}\<close> is missing).  A partial pair, an unknown task and a
  malformed interval are a \<open>ValidationError\<close>; a placement that overlaps an occupied
  interval of the user is an \<open>OverlapConflict\<close>; nothing is applied on an error.  Both
  fields absent clear the placement; anchors are never unscheduled.
\<close>

datatype error = ValidationError | OverlapConflict

definition commit :: "nat \<Rightarrow> interval \<Rightarrow> schedule_source \<Rightarrow> store \<Rightarrow> store" where
  "commit i p src s =
     map (\<lambda>t. if t_id t = i then t\<lparr>t_planned := Some p, t_source := Some src\<rparr> else t) s"

definition occupied_by_others :: "nat \<Rightarrow> nat \<Rightarrow> store \<Rightarrow> interval list" where
  "occupied_by_others u i s =
     concat (map (\<lambda>t. if t_user t = u \<and> t_id t \<noteq> i
                       then (case t_planned t of Some p \<Rightarrow> [p] | None \<Rightarrow> []) else []) s)"

definition place :: "nat \<Rightarrow> nat \<Rightarrow> int \<Rightarrow> int \<Rightarrow> store \<Rightarrow> error + store" where
  "place u i st en s =
     (case find (\<lambda>t. t_id t = i \<and> t_user t = u) s of
        None \<Rightarrow> Inl ValidationError
      | Some t \<Rightarrow>
          if \<not> st < en then Inl ValidationError
          else if list_ex (overlaps (st, en)) (occupied_by_others u i s) then Inl OverlapConflict
          else Inr (commit i (st, en) Manual s))"

definition unschedule :: "nat \<Rightarrow> nat \<Rightarrow> store \<Rightarrow> error + store" where
  "unschedule u i s =
     (case find (\<lambda>t. t_id t = i \<and> t_user t = u) s of
        None \<Rightarrow> Inl ValidationError
      | Some t \<Rightarrow>
          if t_type t = AnchorTask then Inl ValidationError
          else Inr (map (\<lambda>x. if t_id x = i
                              then x\<lparr>t_planned := None, t_source := Some Manual\<rparr> else x) s))"

definition patch_placement :: "nat \<Rightarrow> nat \<Rightarrow> int option \<Rightarrow> int option \<Rightarrow> store \<Rightarrow> error + store" where
  "patch_placement u i ps pe s =
     (case (ps, pe) of
        (Some st, Some en) \<Rightarrow> place u i st en s
      | (None, None) \<Rightarrow> unschedule u i s
      | _ \<Rightarrow> Inl ValidationError)"

subsection \<open>Autoplan Engine\<close>

text \<open>
  Modelled from the spec: section 4.4 (the server's autoplan engine is missing).  The
  candidates are the user's backlog tasks (type user or system, no placement), ordered
  once per run by priority and then by creation order.  Day by day the anchors are
  ensured; then each remaining candidate is tried on the day, against free intervals
  recomputed from the occupied intervals of the moment; a success is committed with
  \<open>schedule_source\<close> autoplan, a failure stays for the next day, and what is left when the
  range is exhausted is skipped.  The occupied intervals of a day are those of the
  user's placed tasks that meet the day's span.
\<close>

definition is_backlog :: "nat \<Rightarrow> etask \<Rightarrow> bool" where
  "is_backlog u t =
     (t_user t = u \<and> (t_type t = UserTask \<or> t_type t = SystemTask) \<and> t_planned t = None)"

definition candidates :: "nat \<Rightarrow> store \<Rightarrow> nat list" where
  "candidates u s = map t_id (sort_key t_priority (filter (is_backlog u) s))"

definition occupied :: "nat \<Rightarrow> int \<Rightarrow> store \<Rightarrow> interval list" where
  "occupied u day s =
     concat (map (\<lambda>t. if t_user t = u
                       then (case t_planned t of
                               Some p \<Rightarrow> if overlaps p (day_start day, day_start (day + 1))
                                          then [p] else []
                             | None \<Rightarrow> [])
                       else []) s)"

definition meal_ends_of :: "nat \<Rightarrow> store \<Rightarrow> int list" where
  "meal_ends_of u s =
     concat (map (\<lambda>t. if t_user t = u \<and> t_type t = AnchorTask \<and> t_kind t = Meal
                       then (case t_planned t of Some p \<Rightarrow> [snd p] | None \<Rightarrow> []) else []) s)"

fun place_day ::
  "routine_config \<Rightarrow> nat \<Rightarrow> int \<Rightarrow> nat list \<Rightarrow> store \<Rightarrow> store \<times> nat list \<times> nat list" where
  "place_day cfg u day [] s = (s, [], [])"
| "place_day cfg u day (c # cs) s =
     (case find (\<lambda>t. t_id t = c \<and> is_backlog u t) s of
        None \<Rightarrow> place_day cfg u day cs s
      | Some t \<Rightarrow>
          (case findSlot (workout cfg) (meal_ends_of u s) t
                  (freeIntervals (day_start day) (day_start (day + 1)) (occupied u day s)) of
             None \<Rightarrow>
               (let (s', placed, left) = place_day cfg u day cs s in (s', placed, c # left))
           | Some p \<Rightarrow>
               (let (s', placed, left) = place_day cfg u day cs (commit c p Autoplan s)
                in (s', c # placed, left))))"

fun autoplan_days ::
  "routine_config \<Rightarrow> nat \<Rightarrow> int list \<Rightarrow> nat list \<Rightarrow> store \<Rightarrow> store \<times> nat list \<times> nat list" where
  "autoplan_days cfg u [] cands s = (s, [], cands)"
| "autoplan_days cfg u (day # days) cands s =
     (let (s1, anchors) = ensureAnchors cfg u day s;
          (s2, placed, left) = place_day cfg u day cands s1;
          (s3, placed', skipped) = autoplan_days cfg u days left s2
      in (s3, placed @ placed', skipped))"

definition autoplan ::
  "routine_config \<Rightarrow> nat \<Rightarrow> int \<Rightarrow> nat \<Rightarrow> store \<Rightarrow> store \<times> nat list \<times> nat list" where
  "autoplan cfg u startDay days s =
     autoplan_days cfg u (map (\<lambda>k. startDay + int k) [0..<days]) (candidates u s) s"

subsection \<open>Sequences of placement operations\<close>

text \<open>
  Modelled from the spec: the placement operations a user's store goes through
  (sections 4.4, 5 and 6): a manual placement or move, an unschedule, an autoplan run.
  A rejected operation leaves the store as it is.
\<close>

datatype operation =
    PlaceTask nat nat int int
  | UnscheduleTask nat nat
  | RunAutoplan routine_config nat int nat

fun apply_operation :: "store \<Rightarrow> operation \<Rightarrow> store" where
  "apply_operation s (PlaceTask u i st en) =
     (case place u i st en s of Inl e \<Rightarrow> s | Inr s' \<Rightarrow> s')"
| "apply_operation s (UnscheduleTask u i) =
     (case unschedule u i s of Inl e \<Rightarrow> s | Inr s' \<Rightarrow> s')"
| "apply_operation s (RunAutoplan cfg u startDay days) = fst (autoplan cfg u startDay days s)"

definition apply_operations :: "store \<Rightarrow> operation list \<Rightarrow> store" where
  "apply_operations s ops = foldl apply_operation s ops"

text \<open>
  No two placed tasks of one user overlap: each row against every later row of the
  store.
\<close>

definition conflict :: "etask \<Rightarrow> etask \<Rightarrow> bool" where
  "conflict t t' =
     (t_user t = t_user t'
      \<and> (case t_planned t of
           None \<Rightarrow> False
         | Some p \<Rightarrow> (case t_planned t' of None \<Rightarrow> False | Some q \<Rightarrow> overlaps p q)))"

fun no_overlap :: "store \<Rightarrow> bool" where
  "no_overlap [] = True"
| "no_overlap (t # ts) = (list_all (\<lambda>t'. \<not> conflict t t') ts \<and> no_overlap ts)"

section \<open>Notions the properties are stated with\<close>







text \<open>
  The two payloads that touch the placement: a placement, with both fields rendered by
  \<open>toLocalIsoString\<close>, and the return to the backlog, with both fields \<^verbatim>\<open>null\<close>.
\<close>

definition placement_request :: "int \<Rightarrow> request \<Rightarrow> bool" where
  "placement_request tz r =
     (\<exists>i s e. r = PATCH i [(''planned_start'', JStr (toLocalIsoString tz s)),
                           (''planned_end'', JStr (toLocalIsoString tz e)),
                           (''schedule_source'', JStr ''manual'')])"

definition unschedule_request :: "request \<Rightarrow> bool" where
  "unschedule_request r =
     (\<exists>i. r = PATCH i [(''planned_start'', JNull), (''planned_end'', JNull),
                       (''schedule_source'', JStr ''manual'')])"

text \<open>A task and a state of the page used as concrete inputs below.\<close>

definition example_task :: task where
  "example_task =
     \<lparr>task_id = ''7'', title = ''Write report'', task_notes = None, priority = Some 1,
      planned_start = Some (DateOf 1709199000000), planned_end = Some (DateOf 1709204400000),
      estimate_minutes = Some 90, is_done = False\<rparr>"

definition example_ui :: ui where
  "example_ui =
     \<lparr>taskIndex = (\<lambda>k. if k = ''7'' then Some example_task else None),
      selectedTaskId = Some ''7'',
      moveDate = ''2024-03-01'', moveTime = ''14:00'', moveMinutes = ''45''\<rparr>"

text \<open>A workout policy of 60 minutes with 15 minutes of travel each way, and a workout task.\<close>

definition example_policy :: workout_policy where
  "example_policy = \<lparr>target_days = 3, session_duration = 60, travel_oneway_min = 15\<rparr>"

definition example_workout :: etask where
  "example_workout =
     \<lparr>t_id = 1, t_user = 1, t_type = UserTask, t_kind = Workout, t_title = ''Gym'', t_priority = 2,
      t_planned = None, t_estimate = None, t_done = False, t_anchor_key = None, t_source = None\<rparr>"

text \<open>What the upsert of one anchor does to a row that is already there.\<close>

definition upd :: "nat \<Rightarrow> anchor_spec \<Rightarrow> etask \<Rightarrow> etask" where
  "upd u sp x = (if matches u (a_key sp) x then describe sp x else x)"

text \<open>A routine with one morning step at 06:00 and breakfast at 07:00, for concrete inputs.\<close>

definition example_config :: routine_config where
  "example_config =
     \<lparr>routine_steps = [\<lparr>step_id = 1, step_offset = 360, step_duration = 30,
                         step_title = ''Wake up'', step_kind = Morning\<rparr>],
      meal_anchors = [\<lparr>meal_name = ''breakfast'', meal_offset = 420, meal_duration = 30\<rparr>],
      workout = example_policy\<rparr>"

text \<open>One interval lies inside another; two intervals do not meet.\<close>

definition inside :: "interval \<Rightarrow> interval \<Rightarrow> bool" where
  "inside f g = (fst g \<le> fst f \<and> snd f \<le> snd g)"

definition apart :: "interval \<Rightarrow> interval \<Rightarrow> bool" where
  "apart f q = (snd f \<le> fst q \<or> snd q \<le> fst f)"

text \<open>
  Every call of the Anchor Resolver in an autoplan run, and in a sequence of operations,
  leaves the store without overlapping placements: the anchors it inserts meet no occupied
  interval.  The recursion follows that of \<open>autoplan_days\<close>.
\<close>

fun anchors_fit :: "routine_config \<Rightarrow> nat \<Rightarrow> int list \<Rightarrow> nat list \<Rightarrow> store \<Rightarrow> bool" where
  "anchors_fit cfg u [] cands s = True"
| "anchors_fit cfg u (day # days) cands s =
     (let s1 = fst (ensureAnchors cfg u day s);
          r = place_day cfg u day cands s1
      in no_overlap s1 \<and> anchors_fit cfg u days (snd (snd r)) (fst r))"

fun anchors_fit_ops :: "store \<Rightarrow> operation list \<Rightarrow> bool" where
  "anchors_fit_ops s [] = True"
| "anchors_fit_ops s (x # xs) =
     ((case x of
         RunAutoplan cfg u startDay days \<Rightarrow>
           anchors_fit cfg u (map (\<lambda>k. startDay + int k) [0..<days]) (candidates u s) s
       | _ \<Rightarrow> True)
      \<and> anchors_fit_ops (apply_operation s x) xs)"

text \<open>Two backlog tasks of user 1, and a sequence of operations on them.\<close>

definition example_store :: store where
  "example_store =
     [\<lparr>t_id = 1, t_user = 1, t_type = UserTask, t_kind = Work, t_title = ''Write report'',
       t_priority = 1, t_planned = None, t_estimate = Some 90, t_done = False,
       t_anchor_key = None, t_source = None\<rparr>,
      \<lparr>t_id = 2, t_user = 1, t_type = UserTask, t_kind = Other, t_title = ''Call'',
       t_priority = 2, t_planned = None, t_estimate = None, t_done = False,
       t_anchor_key = None, t_source = None\<rparr>]"

definition example_operations :: "operation list" where
  "example_operations =
     [PlaceTask 1 1 600 690, PlaceTask 1 2 630 700, RunAutoplan example_config 1 0 1,
      UnscheduleTask 1 1]"

section \<open>Properties of the calendar functions\<close>



















section \<open>Properties of the string functions\<close>















section \<open>Properties of dates built from fields\<close>









lemma week_shift_bounds:
  fixes w :: int
  assumes "0 \<le> w" "w < 7"
  shows "0 \<le> (w + 6) mod 7" and "(w + 6) mod 7 \<le> 6"
  by simp_all



section \<open>Properties of the handlers\<close>

lemma placement_request_intro:
  "placement_request tz (PATCH i [(''planned_start'', JStr (toLocalIsoString tz s)),
      (''planned_end'', JStr (toLocalIsoString tz e)), (''schedule_source'', JStr ''manual'')])"
  unfolding placement_request_def by blast

lemma unschedule_request_intro:
  "unschedule_request (PATCH i [(''planned_start'', JNull), (''planned_end'', JNull),
      (''schedule_source'', JStr ''manual'')])"
  unfolding unschedule_request_def by blast

lemma handleDropOnDay_shape: "list_all (placement_request tz) (handleDropOnDay tz st taskId dateStr)"
  by (simp add: handleDropOnDay_def Let_def placement_request_intro split: option.splits)

lemma handleDropOnSlot_shape:
  "list_all (placement_request tz) (handleDropOnSlot tz st taskId dateStr timeStr)"
  by (simp add: handleDropOnSlot_def Let_def placement_request_intro split: option.splits)

lemma handleDropOnTask_shape:
  "list_all (placement_request tz) (handleDropOnTask tz st taskId targetTaskId)"
  by (simp add: handleDropOnTask_def Let_def placement_request_intro split: option.splits)

lemma timeEdit_shape:
  "list_all (placement_request tz) (timeEdit tz task editing fallbackDay save val)"
  by (simp add: timeEdit_def Let_def placement_request_intro split: option.splits)

lemma handleMove_shape: "list_all (placement_request tz) (handleMove tz st)"
  by (simp add: handleMove_def Let_def placement_request_intro split: option.splits)

lemma handleUnschedule_shape: "list_all unschedule_request (handleUnschedule st)"
  by (simp add: handleUnschedule_def unschedule_request_intro split: option.splits)

lemma handleDropOnBacklog_shape: "list_all unschedule_request (handleDropOnBacklog st taskId)"
  by (simp add: handleDropOnBacklog_def unschedule_request_intro split: option.splits)

lemma other_shapes:
  "PATCH i p \<in> set (priorityClick task) \<Longrightarrow> \<not> touches_placement p"
  "PATCH i p \<in> set (titleEdit task editing save val) \<Longrightarrow> \<not> touches_placement p"
  "PATCH i p \<in> set (notesEdit task editing save val) \<Longrightarrow> \<not> touches_placement p"
  "PATCH i p \<in> set (handleMarkDone st) \<Longrightarrow> \<not> touches_placement p"
  "PATCH i p \<in> set (handleDelete st confirmed) \<Longrightarrow> \<not> touches_placement p"
  by (auto simp: priorityClick_def titleEdit_def notesEdit_def handleMarkDone_def handleDelete_def
        touches_placement_def field_def Let_def split: option.splits if_splits)

lemma placement_request_fields:
  assumes "placement_request tz r"
  shows "\<exists>i p s e. r = PATCH i p
           \<and> field p ''planned_start'' = Some (JStr (toLocalIsoString tz s))
           \<and> field p ''planned_end'' = Some (JStr (toLocalIsoString tz e))
           \<and> field p ''schedule_source'' = Some (JStr ''manual'')"
proof -
  from assms obtain i s e where
    r: "r = PATCH i [(''planned_start'', JStr (toLocalIsoString tz s)),
           (''planned_end'', JStr (toLocalIsoString tz e)), (''schedule_source'', JStr ''manual'')]"
    unfolding placement_request_def by blast
  show ?thesis unfolding r by (simp add: field_def) blast
qed

lemma unschedule_request_fields:
  assumes "unschedule_request r"
  shows "\<exists>i p. r = PATCH i p \<and> field p ''planned_start'' = Some JNull
           \<and> field p ''planned_end'' = Some JNull
           \<and> field p ''schedule_source'' = Some (JStr ''manual'')"
proof -
  from assms obtain i where
    r: "r = PATCH i [(''planned_start'', JNull), (''planned_end'', JNull),
                           (''schedule_source'', JStr ''manual'')]"
    unfolding unschedule_request_def by blast
  show ?thesis unfolding r by (simp add: field_def)
qed


lemma requests_of_shape:
  assumes "PATCH i p \<in> set (requests_of tz st a)"
  shows "placement_request tz (PATCH i p) \<or> unschedule_request (PATCH i p) \<or> \<not> touches_placement p"
proof -
  have pl: "list_all (placement_request tz) rs \<Longrightarrow> PATCH i p \<in> set rs \<Longrightarrow> placement_request tz (PATCH i p)" for rs
    by (auto simp: list_all_iff)
  have un: "list_all unschedule_request rs \<Longrightarrow> PATCH i p \<in> set rs \<Longrightarrow> unschedule_request (PATCH i p)" for rs
    by (auto simp: list_all_iff)
  show ?thesis
  proof (cases a)
    case (DropOnDay x y) then show ?thesis using assms pl [OF handleDropOnDay_shape] by simp
  next
    case (DropOnSlot x y z) then show ?thesis using assms pl [OF handleDropOnSlot_shape] by simp
  next
    case (DropOnTask x y) then show ?thesis using assms pl [OF handleDropOnTask_shape] by simp
  next
    case (DropOnBacklog x) then show ?thesis using assms un [OF handleDropOnBacklog_shape] by simp
  next
    case (TimeEdit x1 x2 x3 x4 x5) then show ?thesis using assms pl [OF timeEdit_shape] by simp
  next
    case MoveForm then show ?thesis using assms pl [OF handleMove_shape] by simp
  next
    case UnscheduleButton then show ?thesis using assms un [OF handleUnschedule_shape] by simp
  next
    case (PriorityClick x) then show ?thesis using assms other_shapes(1) by simp
  next
    case (TitleEdit x1 x2 x3 x4) then show ?thesis using assms other_shapes(2) by simp
  next
    case (NotesEdit x1 x2 x3 x4) then show ?thesis using assms other_shapes(3) by simp
  next
    case MarkDoneButton then show ?thesis using assms other_shapes(4) by simp
  next
    case (DeleteButton x) then show ?thesis using assms other_shapes(5) by simp
  qed
qed


lemma example_unschedule:
  "requests_of 0 example_ui UnscheduleButton =
     [PATCH ''7'' [(''planned_start'', JNull), (''planned_end'', JNull),
                   (''schedule_source'', JStr ''manual'')]]"
  by code_simp




section \<open>Properties of the Slot Finder\<close>

lemma findSlot_Some:
  assumes "findSlot pol me t fs = Some (s, e)"
  shows "\<exists>f \<in> set fs. int (required_length pol t) \<le> snd f - fst f
           \<and> s = fst f + int (lead_margin pol t)
           \<and> e = s + int (stored_length pol t)
           \<and> \<not> (t_kind t = Workout \<and> s \<in> set me)"
  using assms
proof (induction fs)
  case Nil
  then show ?case by simp
next
  case (Cons f fs)
  show ?case
  proof (cases "int (required_length pol t) \<le> snd f - fst f
            \<and> \<not> (t_kind t = Workout \<and> fst f + int (lead_margin pol t) \<in> set me)")
    case True
    then show ?thesis using Cons.prems by (auto simp: Let_def)
  next
    case False
    then have "findSlot pol me t fs = Some (s, e)" using Cons.prems by (auto simp: Let_def)
    then show ?thesis using Cons.IH by auto
  qed
qed

lemma findSlot_None:
  assumes "\<forall>f \<in> set fs. snd f - fst f < int (required_length pol t)"
  shows "findSlot pol me t fs = None"
  using assms by (induction fs) (auto simp: Let_def)

section \<open>Properties of the Anchor Resolver\<close>

lemma matches_describe [simp]: "matches u k (describe sp t) = matches u k t"
  by (simp add: matches_def describe_def)

lemma matches_upd [simp]: "matches u k (upd u' sp t) = matches u k t"
  by (simp add: upd_def)

lemma describe_describe [simp]: "describe sp (describe q t) = describe sp t"
  by (simp add: describe_def)

lemma describe_upd [simp]: "describe sp (upd u q t) = describe sp t"
  by (simp add: upd_def)

lemma describe_new_anchor [simp]: "describe sp (new_anchor u sp s) = new_anchor u sp s"
  by (simp add: describe_def new_anchor_def)

lemma matches_new_anchor [simp]: "matches u k (new_anchor u sp s) = (k = a_key sp)"
  by (auto simp: matches_def new_anchor_def)

lemma find_None_iff_no_match: "find P xs = None \<longleftrightarrow> (\<forall>x \<in> set xs. \<not> P x)"
  by (induction xs) auto

lemma upsert_store:
  "fst (upsertByAnchorKey u sp s) =
     (if \<exists>t \<in> set s. matches u (a_key sp) t then map (upd u sp) s
      else s @ [new_anchor u sp s])"
proof (cases "find (matches u (a_key sp)) s")
  case None
  then have "\<forall>x \<in> set s. \<not> matches u (a_key sp) x"
    by (simp add: find_None_iff_no_match)
  then show ?thesis by (simp add: upsertByAnchorKey_def None)
next
  case (Some t)
  then have "\<exists>t \<in> set s. matches u (a_key sp) t"
    using find_None_iff_no_match [of "matches u (a_key sp)" s] by auto
  then show ?thesis using Some
    by (auto simp: upsertByAnchorKey_def upd_def [abs_def])
qed

lemma upd_fold_absorb:
  "matches u (a_key sp) x \<Longrightarrow> upd u sp (fold (upd u) pre x) = upd u sp x"
proof (induction pre arbitrary: x)
  case Nil
  show ?case by simp
next
  case (Cons p pre)
  have "upd u sp (fold (upd u) pre (upd u p x)) = upd u sp (upd u p x)"
    using Cons.prems by (intro Cons.IH) simp
  also have "\<dots> = upd u sp x" using Cons.prems by (simp add: upd_def)
  finally show ?case by simp
qed

lemma upsert_settled:
  assumes "\<forall>t \<in> set s. fold (upd u) pre t = t"
  shows "\<forall>t \<in> set (fst (upsertByAnchorKey u sp s)). fold (upd u) (pre @ [sp]) t = t"
proof (cases "\<exists>t \<in> set s. matches u (a_key sp) t")
  case True
  have "upd u sp (fold (upd u) pre (upd u sp t0)) = upd u sp t0" if "t0 \<in> set s" for t0
  proof (cases "matches u (a_key sp) t0")
    case True
    then have "upd u sp (fold (upd u) pre (upd u sp t0)) = upd u sp (upd u sp t0)"
      by (intro upd_fold_absorb) simp
    then show ?thesis by (simp add: upd_def)
  next
    case False
    then have "upd u sp t0 = t0" by (simp add: upd_def)
    then show ?thesis using assms that by simp
  qed
  then show ?thesis using True by (auto simp: upsert_store)
next
  case False
  have "upd u sp (fold (upd u) pre (new_anchor u sp s)) = upd u sp (new_anchor u sp s)"
    by (intro upd_fold_absorb) simp
  then have n: "upd u sp (fold (upd u) pre (new_anchor u sp s)) = new_anchor u sp s"
    by (simp add: upd_def)
  have "upd u sp (fold (upd u) pre t) = t" if "t \<in> set s" for t
    using assms that False by (simp add: upd_def)
  then show ?thesis using False n by (auto simp: upsert_store)
qed

lemma upsert_all_settled:
  "\<forall>t \<in> set s. fold (upd u) pre t = t \<Longrightarrow>
     \<forall>t \<in> set (fst (upsert_all u rest s)). fold (upd u) (pre @ rest) t = t"
proof (induction rest arbitrary: pre s)
  case Nil
  then show ?case by simp
next
  case (Cons sp rest)
  have "\<forall>t \<in> set (fst (upsert_all u rest (fst (upsertByAnchorKey u sp s)))).
          fold (upd u) ((pre @ [sp]) @ rest) t = t"
    by (intro Cons.IH upsert_settled Cons.prems)
  then show ?case by (simp add: split_beta Let_def)
qed

lemma upsert_present:
  "\<exists>t \<in> set (fst (upsertByAnchorKey u sp s)). matches u (a_key sp) t"
  by (auto simp: upsert_store)

lemma upsert_keeps_present:
  "\<exists>t \<in> set s. matches u k t \<Longrightarrow> \<exists>t \<in> set (fst (upsertByAnchorKey u sp s)). matches u k t"
  by (auto simp: upsert_store)

lemma upsert_all_keeps_present:
  "\<exists>t \<in> set s. matches u k t \<Longrightarrow> \<exists>t \<in> set (fst (upsert_all u specs s)). matches u k t"
proof (induction specs arbitrary: s)
  case Nil
  then show ?case by simp
next
  case (Cons sp specs)
  have "\<exists>t \<in> set (fst (upsert_all u specs (fst (upsertByAnchorKey u sp s)))). matches u k t"
    by (intro Cons.IH upsert_keeps_present Cons.prems)
  then show ?case by (simp add: split_beta Let_def)
qed

lemma upsert_all_present:
  "sp \<in> set specs \<Longrightarrow> \<exists>t \<in> set (fst (upsert_all u specs s)). matches u (a_key sp) t"
proof (induction specs arbitrary: s)
  case Nil
  then show ?case by simp
next
  case (Cons q specs)
  show ?case
  proof (cases "sp = q")
    case True
    have "\<exists>t \<in> set (fst (upsert_all u specs (fst (upsertByAnchorKey u q s)))).
            matches u (a_key q) t"
      by (intro upsert_all_keeps_present upsert_present)
    then show ?thesis using True by (simp add: split_beta Let_def)
  next
    case False
    then have "sp \<in> set specs" using Cons.prems by simp
    then have "\<exists>t \<in> set (fst (upsert_all u specs (fst (upsertByAnchorKey u q s)))).
            matches u (a_key sp) t"
      by (rule Cons.IH)
    then show ?thesis by (simp add: split_beta Let_def)
  qed
qed

lemma upsert_all_when_present:
  "\<forall>sp \<in> set specs. \<exists>t \<in> set s. matches u (a_key sp) t \<Longrightarrow>
     fst (upsert_all u specs s) = map (fold (upd u) specs) s"
proof (induction specs arbitrary: s)
  case Nil
  show ?case by simp
next
  case (Cons sp specs)
  have s1: "fst (upsertByAnchorKey u sp s) = map (upd u sp) s"
    using Cons.prems by (simp add: upsert_store)
  have "\<forall>q \<in> set specs. \<exists>t \<in> set (map (upd u sp) s). matches u (a_key q) t"
    using Cons.prems by auto
  then have "fst (upsert_all u specs (map (upd u sp) s)) = map (fold (upd u) specs) (map (upd u sp) s)"
    by (rule Cons.IH)
  then show ?case using s1 by (simp add: split_beta Let_def o_def)
qed

lemma upsert_all_store_idem:
  "fst (upsert_all u specs (fst (upsert_all u specs s))) = fst (upsert_all u specs s)"
proof -
  define s1 where "s1 = fst (upsert_all u specs s)"
  have fixed: "\<forall>t \<in> set s1. fold (upd u) specs t = t"
    unfolding s1_def using upsert_all_settled [of s u "[]" specs] by simp
  have "\<forall>sp \<in> set specs. \<exists>t \<in> set s1. matches u (a_key sp) t"
    unfolding s1_def using upsert_all_present by blast
  then have "fst (upsert_all u specs s1) = map (fold (upd u) specs) s1"
    by (rule upsert_all_when_present)
  also have "\<dots> = s1" using fixed by (simp add: map_idI)
  finally show ?thesis unfolding s1_def .
qed

lemma find_map_upd:
  "find (matches u k) (map (upd u q) s) = map_option (upd u q) (find (matches u k) s)"
  by (induction s) simp_all

lemma find_append_absent: "\<forall>x \<in> set xs. \<not> P x \<Longrightarrow> find P (xs @ ys) = find P ys"
  by (induction xs) simp_all

lemma find_append_present: "\<exists>x \<in> set xs. P x \<Longrightarrow> find P (xs @ ys) = find P xs"
  by (induction xs) auto

lemma find_present: "\<exists>x \<in> set xs. P x \<Longrightarrow> \<exists>y. find P xs = Some y"
  using find_None_iff_no_match [of P xs] by auto

lemma upsert_row:
  "snd (upsertByAnchorKey u sp s) =
     describe sp (the (find (matches u (a_key sp)) (fst (upsertByAnchorKey u sp s))))"
proof (cases "find (matches u (a_key sp)) s")
  case None
  then have nm: "\<forall>x \<in> set s. \<not> matches u (a_key sp) x"
    by (simp add: find_None_iff_no_match)
  then show ?thesis
    by (simp add: upsertByAnchorKey_def None find_append_absent)
next
  case (Some t)
  then have "\<exists>t \<in> set s. matches u (a_key sp) t"
    using find_None_iff_no_match [of "matches u (a_key sp)" s] by auto
  then have f: "fst (upsertByAnchorKey u sp s) = map (upd u sp) s"
    by (simp add: upsert_store)
  have r: "snd (upsertByAnchorKey u sp s) = describe sp t"
    by (simp add: upsertByAnchorKey_def Some)
  show ?thesis unfolding f r by (simp add: find_map_upd Some)
qed

lemma upsert_first_match_stable:
  assumes "\<exists>t \<in> set x. matches u k t"
  shows "describe sp (the (find (matches u k) (fst (upsertByAnchorKey u q x))))
       = describe sp (the (find (matches u k) x))"
proof -
  obtain t where t: "find (matches u k) x = Some t" using find_present [OF assms] by blast
  show ?thesis
  proof (cases "\<exists>t \<in> set x. matches u (a_key q) t")
    case True
    then show ?thesis by (simp add: upsert_store find_map_upd t)
  next
    case False
    then show ?thesis using assms by (simp add: upsert_store find_append_present)
  qed
qed

lemma upsert_all_first_match_stable:
  "\<exists>t \<in> set x. matches u k t \<Longrightarrow>
     describe sp (the (find (matches u k) (fst (upsert_all u specs x))))
       = describe sp (the (find (matches u k) x))"
proof (induction specs arbitrary: x)
  case Nil
  show ?case by simp
next
  case (Cons q specs)
  have "describe sp (the (find (matches u k)
            (fst (upsert_all u specs (fst (upsertByAnchorKey u q x))))))
      = describe sp (the (find (matches u k) (fst (upsertByAnchorKey u q x))))"
    by (intro Cons.IH upsert_keeps_present Cons.prems)
  also have "\<dots> = describe sp (the (find (matches u k) x))"
    by (rule upsert_first_match_stable [OF Cons.prems])
  finally show ?case by (simp add: split_beta Let_def)
qed

lemma upsert_all_rows:
  "snd (upsert_all u specs s) =
     map (\<lambda>sp. describe sp (the (find (matches u (a_key sp)) (fst (upsert_all u specs s))))) specs"
proof (induction specs arbitrary: s)
  case Nil
  show ?case by simp
next
  case (Cons q specs)
  define s1 where "s1 = fst (upsertByAnchorKey u q s)"
  have "describe q (the (find (matches u (a_key q)) (fst (upsert_all u specs s1))))
      = describe q (the (find (matches u (a_key q)) s1))"
    unfolding s1_def by (intro upsert_all_first_match_stable upsert_present)
  then have hd: "snd (upsertByAnchorKey u q s)
      = describe q (the (find (matches u (a_key q)) (fst (upsert_all u specs s1))))"
    unfolding s1_def using upsert_row [of u q s] by simp
  have tl: "snd (upsert_all u specs s1) =
     map (\<lambda>sp. describe sp (the (find (matches u (a_key sp)) (fst (upsert_all u specs s1))))) specs"
    by (rule Cons.IH)
  show ?case using hd tl by (simp add: split_beta Let_def s1_def)
qed

section \<open>Properties of the Free-Time Calculator\<close>

lemma inside_refl [simp]: "inside f f"
  by (simp add: inside_def)

lemma inside_trans: "inside f g \<Longrightarrow> inside g h \<Longrightarrow> inside f h"
  by (auto simp: inside_def)

lemma apart_inside: "apart g q \<Longrightarrow> inside f g \<Longrightarrow> apart f q"
  by (auto simp: apart_def inside_def)

lemma apart_cover: "apart f m \<Longrightarrow> inside q m \<Longrightarrow> apart f q"
  by (auto simp: apart_def inside_def)

lemma cut_props:
  assumes "f' \<in> set (cut occ f)"
  shows "inside f' f" and "apart f' occ"
  using assms by (auto simp: cut_def inside_def apart_def split: if_splits)

lemma subtract_props:
  assumes "f' \<in> set (subtract occ fs)"
  shows "\<exists>f \<in> set fs. inside f' f \<and> apart f' occ"
proof -
  from assms obtain f where f: "f \<in> set fs" "f' \<in> set (cut occ f)"
    unfolding subtract_def by auto
  have "inside f' f \<and> apart f' occ" using cut_props [OF f(2)] by simp
  then show ?thesis using f(1) by blast
qed

lemma fold_subtract_props:
  "f' \<in> set (fold subtract ms fs) \<Longrightarrow>
     (\<exists>f \<in> set fs. inside f' f) \<and> (\<forall>m \<in> set ms. apart f' m)"
proof (induction ms arbitrary: fs)
  case Nil
  then have "f' \<in> set fs" by simp
  then have "\<exists>f \<in> set fs. inside f' f" by (rule bexI [rotated]) simp
  then show ?case by simp
next
  case (Cons m ms)
  then have h: "f' \<in> set (fold subtract ms (subtract m fs))" by simp
  from Cons.IH [OF h] obtain f1 where f1: "f1 \<in> set (subtract m fs)" "inside f' f1"
    and rest: "\<forall>x \<in> set ms. apart f' x" by blast
  from subtract_props [OF f1(1)] obtain f where f: "f \<in> set fs" "inside f1 f" "apart f1 m"
    by blast
  have "inside f' f" using f1(2) f(2) by (rule inside_trans)
  moreover have "apart f' m" using f(3) f1(2) by (rule apart_inside)
  ultimately show ?case using f(1) rest by auto
qed

lemma merge_covers:
  "sorted (map fst xs) \<Longrightarrow> q \<in> set xs \<Longrightarrow> \<exists>m \<in> set (merge_intervals xs). inside q m"
proof (induction xs arbitrary: q rule: merge_intervals.induct)
  case 1
  then show ?case by simp
next
  case (2 p)
  then show ?case by simp
next
  case (3 p r rest)
  show ?case
  proof (cases "fst r \<le> snd p")
    case True
    let ?h = "(fst p, max (snd p) (snd r))"
    have srt: "sorted (map fst (?h # rest))" using "3.prems"(1) by auto
    have pr: "fst p \<le> fst r" using "3.prems"(1) by simp
    have "q = p \<or> q = r \<or> q \<in> set rest" using "3.prems"(2) by auto
    then consider (a) "q = p" | (b) "q = r" | (c) "q \<in> set rest" by blast
    then have "\<exists>x \<in> set (?h # rest). inside q x"
    proof cases
      case a
      then have "inside q ?h" by (simp add: inside_def)
      then show ?thesis by simp
    next
      case b
      then have "inside q ?h" using pr by (simp add: inside_def)
      then show ?thesis by simp
    next
      case c
      moreover have "inside q q" by simp
      ultimately show ?thesis by (intro bexI [of _ q]) simp_all
    qed
    then obtain x where x: "x \<in> set (?h # rest)" "inside q x" by blast
    from "3.IH"(1) [OF True srt x(1)] obtain m where
      m: "m \<in> set (merge_intervals (?h # rest))" "inside x m" by blast
    have "inside q m" using x(2) m(2) by (rule inside_trans)
    then show ?thesis using True m(1) by auto
  next
    case False
    have srt: "sorted (map fst (r # rest))" using "3.prems"(1) by simp
    show ?thesis
    proof (cases "q = p")
      case True
      then show ?thesis using False by auto
    next
      case qp: False
      then have "q \<in> set (r # rest)" using "3.prems"(2) by auto
      from "3.IH"(2) [OF False srt this] show ?thesis using False by auto
    qed
  qed
qed

lemma freeIntervals_props:
  assumes "f \<in> set (freeIntervals lo hi occ)"
  shows "lo \<le> fst f" and "snd f \<le> hi" and "\<forall>q \<in> set occ. apart f q"
proof -
  let ?ms = "merge_intervals (sort_key fst occ)"
  from assms have h: "f \<in> set (fold subtract ?ms (if lo < hi then [(lo, hi)] else []))"
    by (simp add: freeIntervals_def)
  from fold_subtract_props [OF h] have
    a: "\<exists>g \<in> set (if lo < hi then [(lo, hi)] else []). inside f g"
    and b: "\<forall>m \<in> set ?ms. apart f m" by blast+
  from a show "lo \<le> fst f" "snd f \<le> hi" by (auto simp: inside_def split: if_splits)
  show "\<forall>q \<in> set occ. apart f q"
  proof
    fix q assume "q \<in> set occ"
    then have q: "q \<in> set (sort_key fst occ)" by simp
    have srt: "sorted (map fst (sort_key fst occ))" by (rule sorted_sort_key)
    from merge_covers [OF srt q] obtain m where m: "m \<in> set ?ms" "inside q m" by blast
    have "apart f m" using b m(1) by simp
    then show "apart f q" using m(2) by (rule apart_cover)
  qed
qed

section \<open>Properties of placement\<close>

lemma overlaps_sym: "overlaps p q = overlaps q p"
  by (auto simp: overlaps_def)

lemma conflict_sym: "conflict t t' = conflict t' t"
  by (auto simp: conflict_def overlaps_sym split: option.splits)

lemma apart_no_overlap: "apart p q \<Longrightarrow> \<not> overlaps p q"
  by (auto simp: apart_def overlaps_def)

lemma inside_no_overlap:
  assumes "inside p f" and "apart f q"
  shows "\<not> overlaps p q"
  using apart_inside [OF assms(2) assms(1)] by (rule apart_no_overlap)

lemma outside_span_no_overlap:
  assumes "inside p (lo, hi)" and "\<not> overlaps q (lo, hi)"
  shows "\<not> overlaps p q"
  using assms by (auto simp: inside_def overlaps_def)

lemma no_overlap_map_weaker:
  assumes "no_overlap s" and "\<And>t t'. conflict (g t) (g t') \<Longrightarrow> conflict t t'"
  shows "no_overlap (map g s)"
  using assms(1)
proof (induction s)
  case Nil
  show ?case by simp
next
  case (Cons t ts)
  then have a: "list_all (\<lambda>t'. \<not> conflict t t') ts" and b: "no_overlap ts" by simp_all
  have "list_all (\<lambda>t'. \<not> conflict (g t) t') (map g ts)"
    using a assms(2) by (auto simp: list_all_iff)
  then show ?case using Cons.IH [OF b] by simp
qed

lemma commit_ids [simp]: "map t_id (commit i p src s) = map t_id s"
  by (induction s) (simp_all add: commit_def)

lemma commit_no_overlap:
  assumes "distinct (map t_id s)" and "no_overlap s"
    and own: "\<forall>t \<in> set s. t_id t = i \<longrightarrow> t_user t = u"
    and free: "\<forall>t \<in> set s. \<forall>q. t_id t \<noteq> i \<and> t_user t = u \<and> t_planned t = Some q
                 \<longrightarrow> \<not> overlaps p q"
  shows "no_overlap (commit i p src s)"
  using assms
proof (induction s)
  case Nil
  show ?case by (simp add: commit_def)
next
  case (Cons t ts)
  let ?f = "\<lambda>t. if t_id t = i then t\<lparr>t_planned := Some p, t_source := Some src\<rparr> else t"
  have d: "distinct (map t_id ts)" and nid: "t_id t \<notin> t_id ` set ts"
    using Cons.prems(1) by simp_all
  have a: "list_all (\<lambda>t'. \<not> conflict t t') ts" and b: "no_overlap ts"
    using Cons.prems(2) by simp_all
  have ih: "no_overlap (commit i p src ts)"
    using Cons.IH [OF d b] Cons.prems(3,4) by simp
  have nc: "\<not> conflict (?f t) (?f t')" if t': "t' \<in> set ts" for t'
  proof (cases "t_id t = i")
    case True
    then have ne: "t_id t' \<noteq> i" using nid t' by (metis image_eqI)
    have ut: "t_user t = u" using Cons.prems(3) True by simp
    have "\<not> overlaps p q" if "t_user t' = u" "t_planned t' = Some q" for q
      using Cons.prems(4) t' ne that by (metis list.set_intros(2))
    then show ?thesis using True ne ut
      by (auto simp: conflict_def split: option.splits)
  next
    case False
    show ?thesis
    proof (cases "t_id t' = i")
      case True
      have ut: "t_user t' = u" using Cons.prems(3) True t' by simp
      have "\<not> overlaps p q" if "t_user t = u" "t_planned t = Some q" for q
        using Cons.prems(4) False that by (metis list.set_intros(1))
      then show ?thesis using True False ut
        by (auto simp: conflict_def overlaps_sym [of _ p] split: option.splits)
    next
      case ne: False
      have "\<not> conflict t t'" using a t' by (simp add: list_all_iff)
      then show ?thesis using False ne by simp
    qed
  qed
  have "list_all (\<lambda>t'. \<not> conflict (?f t) t') (map ?f ts)"
    unfolding list_all_iff set_map using nc by blast
  then show ?case using ih by (simp add: commit_def)
qed

lemma find_Some_props: "find P xs = Some x \<Longrightarrow> x \<in> set xs \<and> P x"
  by (induction xs) (auto split: if_splits)

lemma distinct_id_unique:
  assumes "distinct (map t_id s)" "t \<in> set s" "t' \<in> set s" "t_id t = t_id t'"
  shows "t = t'"
  using assms by (meson distinct_map inj_onD)

lemma place_preserves:
  assumes "distinct (map t_id s)" and "no_overlap s" and "place u i st en s = Inr s'"
  shows "distinct (map t_id s') \<and> no_overlap s'"
proof -
  from assms(3) obtain t where f: "find (\<lambda>t. t_id t = i \<and> t_user t = u) s = Some t"
    by (auto simp: place_def split: option.splits)
  then have t: "t \<in> set s" "t_id t = i" "t_user t = u" using find_Some_props by fastforce+
  from assms(3) f have nex: "\<not> list_ex (overlaps (st, en)) (occupied_by_others u i s)"
    and s': "s' = commit i (st, en) Manual s"
    by (auto simp: place_def split: if_splits)
  have own: "\<forall>x \<in> set s. t_id x = i \<longrightarrow> t_user x = u"
    using distinct_id_unique [OF assms(1) _ t(1)] t(2,3) by auto
  have free: "\<forall>x \<in> set s. \<forall>q. t_id x \<noteq> i \<and> t_user x = u \<and> t_planned x = Some q
                 \<longrightarrow> \<not> overlaps (st, en) q"
  proof (intro ballI allI impI)
    fix x q assume x: "x \<in> set s" and h: "t_id x \<noteq> i \<and> t_user x = u \<and> t_planned x = Some q"
    then have "q \<in> set (occupied_by_others u i s)"
      by (cases q) (auto simp: occupied_by_others_def intro!: bexI [of _ x])
    then show "\<not> overlaps (st, en) q" using nex by (auto simp: list_ex_iff)
  qed
  show ?thesis
    unfolding s' using assms(1) commit_no_overlap [OF assms(1,2) own free] by simp
qed

lemma unschedule_preserves:
  assumes "distinct (map t_id s)" and "no_overlap s" and "unschedule u i s = Inr s'"
  shows "distinct (map t_id s') \<and> no_overlap s'"
proof -
  let ?g = "\<lambda>x. if t_id x = i then x\<lparr>t_planned := None, t_source := Some Manual\<rparr> else x"
  from assms(3) have s': "s' = map ?g s"
    by (auto simp: unschedule_def split: option.splits if_splits)
  have ids: "map t_id (map ?g s) = map t_id s" by (induction s) simp_all
  have "conflict t t'" if "conflict (?g t) (?g t')" for t t'
    using that by (auto simp: conflict_def split: if_splits option.splits)
  then have no: "no_overlap (map ?g s)" using assms(2) by (intro no_overlap_map_weaker)
  have d: "distinct (map t_id (map ?g s))" unfolding ids by (rule assms(1))
  show ?thesis unfolding s' using d no by blast
qed

lemma findSlot_inside:
  assumes "findSlot pol me t fs = Some p"
  shows "\<exists>f \<in> set fs. inside p f"
proof -
  obtain s e where p: "p = (s, e)" by (cases p)
  from findSlot_Some [OF assms [unfolded p]] obtain f where f: "f \<in> set fs"
    "int (required_length pol t) \<le> snd f - fst f"
    "s = fst f + int (lead_margin pol t)" "e = s + int (stored_length pol t)"
    by blast
  have "lead_margin pol t + stored_length pol t \<le> required_length pol t"
    by (simp add: lead_margin_def stored_length_def required_length_def)
  then have "int (lead_margin pol t) + int (stored_length pol t) \<le> int (required_length pol t)"
    by linarith
  then have "inside p f" using f(2,3,4) unfolding p inside_def by simp
  then show ?thesis using f(1) by blast
qed

lemma occupied_member:
  assumes "x \<in> set s" "t_user x = u" "t_planned x = Some q"
    "overlaps q (day_start day, day_start (day + 1))"
  shows "q \<in> set (occupied u day s)"
  using assms by (cases q) (auto simp: occupied_def intro!: bexI [of _ x])

lemma slot_is_free:
  assumes slot: "findSlot pol me t (freeIntervals (day_start day) (day_start (day + 1))
                    (occupied u day s)) = Some p"
    and x: "x \<in> set s" "t_user x = u" "t_planned x = Some q"
  shows "\<not> overlaps p q"
proof -
  from findSlot_inside [OF slot] obtain f where
    f: "f \<in> set (freeIntervals (day_start day) (day_start (day + 1)) (occupied u day s))"
    and pf: "inside p f" by blast
  note fp = freeIntervals_props [OF f]
  show ?thesis
  proof (cases "overlaps q (day_start day, day_start (day + 1))")
    case True
    then have "q \<in> set (occupied u day s)" using x by (intro occupied_member)
    then have "apart f q" using fp(3) by simp
    then show ?thesis using pf by (intro inside_no_overlap)
  next
    case False
    have "inside f (day_start day, day_start (day + 1))"
      using fp(1,2) by (simp add: inside_def)
    then have "inside p (day_start day, day_start (day + 1))"
      using pf inside_trans by blast
    then show ?thesis using False by (rule outside_span_no_overlap)
  qed
qed

lemma place_day_preserves:
  "distinct (map t_id s) \<Longrightarrow> no_overlap s \<Longrightarrow>
     distinct (map t_id (fst (place_day cfg u day cs s)))
     \<and> no_overlap (fst (place_day cfg u day cs s))"
proof (induction cs arbitrary: s)
  case Nil
  then show ?case by simp
next
  case (Cons c cs)
  show ?case
  proof (cases "find (\<lambda>t. t_id t = c \<and> is_backlog u t) s")
    case None
    then show ?thesis using Cons.IH [OF Cons.prems] by simp
  next
    case (Some t)
    then have t: "t \<in> set s" "t_id t = c" "t_user t = u"
      using find_Some_props [OF Some] by (simp_all add: is_backlog_def)
    let ?slot = "findSlot (workout cfg) (meal_ends_of u s) t
                  (freeIntervals (day_start day) (day_start (day + 1)) (occupied u day s))"
    show ?thesis
    proof (cases ?slot)
      case None
      then show ?thesis using Some Cons.IH [OF Cons.prems] by (simp add: split_beta)
    next
      case slot: (Some p)
      have own: "\<forall>x \<in> set s. t_id x = c \<longrightarrow> t_user x = u"
        using distinct_id_unique [OF Cons.prems(1) _ t(1)] t(2,3) by auto
      have free: "\<forall>x \<in> set s. \<forall>q. t_id x \<noteq> c \<and> t_user x = u \<and> t_planned x = Some q
                 \<longrightarrow> \<not> overlaps p q"
        using slot_is_free [OF slot] by blast
      have d: "distinct (map t_id (commit c p Autoplan s))" using Cons.prems(1) by simp
      have n: "no_overlap (commit c p Autoplan s)"
        by (rule commit_no_overlap [OF Cons.prems(1,2) own free])
      show ?thesis using Some slot Cons.IH [OF d n] by (simp add: split_beta)
    qed
  qed
qed

lemma fold_max_ge: "(a::nat) \<le> fold max xs a"
  by (induction xs arbitrary: a) (auto intro: order_trans [OF max.cobounded2])

lemma fold_max_member: "(x::nat) \<in> set xs \<Longrightarrow> x \<le> fold max xs a"
proof (induction xs arbitrary: a)
  case Nil
  then show ?case by simp
next
  case (Cons y ys)
  show ?case
  proof (cases "x = y")
    case True
    have "max y a \<le> fold max ys (max y a)" by (rule fold_max_ge)
    then show ?thesis using True by simp
  next
    case False
    then have "x \<in> set ys" using Cons.prems by simp
    then show ?thesis using Cons.IH by simp
  qed
qed

lemma fresh_id_fresh: "fresh_id s \<notin> set (map t_id s)"
proof
  assume "fresh_id s \<in> set (map t_id s)"
  then have "fresh_id s \<le> fold max (map t_id s) 0" by (rule fold_max_member)
  then show False by (simp add: fresh_id_def)
qed

lemma upd_id [simp]: "t_id (upd u sp x) = t_id x"
  by (simp add: upd_def describe_def)

lemma upsert_distinct:
  assumes "distinct (map t_id s)"
  shows "distinct (map t_id (fst (upsertByAnchorKey u sp s)))"
proof (cases "\<exists>t \<in> set s. matches u (a_key sp) t")
  case True
  have "map t_id (map (upd u sp) s) = map t_id s" by (induction s) simp_all
  then show ?thesis using True assms by (simp add: upsert_store del: map_map)
next
  case False
  have "t_id (new_anchor u sp s) = fresh_id s" by (simp add: new_anchor_def)
  then show ?thesis using False assms fresh_id_fresh [of s] by (simp add: upsert_store)
qed

lemma upsert_all_distinct:
  "distinct (map t_id s) \<Longrightarrow> distinct (map t_id (fst (upsert_all u specs s)))"
proof (induction specs arbitrary: s)
  case Nil
  then show ?case by simp
next
  case (Cons sp specs)
  have "distinct (map t_id (fst (upsert_all u specs (fst (upsertByAnchorKey u sp s)))))"
    by (intro Cons.IH upsert_distinct Cons.prems)
  then show ?case by (simp add: split_beta Let_def)
qed

lemma ensureAnchors_distinct:
  "distinct (map t_id s) \<Longrightarrow> distinct (map t_id (fst (ensureAnchors cfg u day s)))"
  unfolding ensureAnchors_def by (rule upsert_all_distinct)

section \<open>The claims about the web client\<close>

subsection \<open>Task duration\<close>



subsection \<open>Priority cycle\<close>

text \<open>
  Claim C8.  For a task whose priority is 1, 2 or 3, or absent (read as 2), the priority
  pill requests \<open>current + 1\<close> when \<open>current < 3\<close> and 1 otherwise, and the priority
  sent lies between 1 and 3.
\<close>

theorem nextPriority_cycle:
  "priority t \<in> {None, Some 1, Some 2, Some 3} \<Longrightarrow>
     (let current = (case priority t of None \<Rightarrow> 2 | Some p \<Rightarrow> p)
      in priorityClick t =
           [PATCH (task_id t) [(''priority'', JNum (if current < 3 then current + 1 else 1))]])
     \<and> 1 \<le> nextPriority t \<and> nextPriority t \<le> 3"
  by (auto simp: priorityClick_def nextPriority_def js_or_def Let_def)

theorem nextPriority_cycle_witness:
  "priorityClick \<lparr>task_id = ''7'', title = ''a'', task_notes = None, priority = Some 3,
       planned_start = None, planned_end = None, estimate_minutes = None, is_done = False\<rparr>
     = [PATCH ''7'' [(''priority'', JNum 1)]]"
  using nextPriority_cycle [of "\<lparr>task_id = ''7'', title = ''a'', task_notes = None,
       priority = Some 3, planned_start = None, planned_end = None, estimate_minutes = None,
       is_done = False\<rparr>"]
  by simp

subsection \<open>Start of the week\<close>


subsection \<open>Parsing and formatting a date and a time\<close>




subsection \<open>Mutations of the placement\<close>

text \<open>
  Claim C5.  Every \<^verbatim>\<open>PATCH\<close> the client issues, whatever the action of the user and
  the state of the page, that mentions \<open>planned_start\<close> or \<open>planned_end\<close> carries both:
  both strings rendered by \<open>toLocalIsoString\<close>, or both \<^verbatim>\<open>null\<close>.  No request carries
  exactly one of the pair.
\<close>

theorem placement_pair_complete:
  "PATCH i p \<in> set (requests_of tz st a) \<Longrightarrow> touches_placement p \<Longrightarrow>
     (\<exists>s e. field p ''planned_start'' = Some (JStr (toLocalIsoString tz s))
          \<and> field p ''planned_end'' = Some (JStr (toLocalIsoString tz e)))
     \<or> (field p ''planned_start'' = Some JNull \<and> field p ''planned_end'' = Some JNull)"
  using requests_of_shape [of i p tz st a]
    placement_request_fields [of tz "PATCH i p"] unschedule_request_fields [of "PATCH i p"]
  by auto

theorem placement_pair_complete_witness:
  "PATCH ''7'' [(''planned_start'', JNull), (''planned_end'', JNull),
                (''schedule_source'', JStr ''manual'')]
     \<in> set (requests_of 0 example_ui UnscheduleButton)
   \<and> field [(''planned_start'', JNull), (''planned_end'', JNull),
             (''schedule_source'', JStr ''manual'')] ''planned_start'' = Some JNull
   \<and> field [(''planned_start'', JNull), (''planned_end'', JNull),
             (''schedule_source'', JStr ''manual'')] ''planned_end'' = Some JNull"
  using placement_pair_complete [of "''7''" "[(''planned_start'', JNull), (''planned_end'', JNull),
                (''schedule_source'', JStr ''manual'')]" 0 example_ui UnscheduleButton,
      unfolded example_unschedule]
  unfolding example_unschedule
  by (simp add: touches_placement_def field_def)





section \<open>The claims about the planning engine\<close>

subsection \<open>Workout travel buffer\<close>

text \<open>
  Claim C3.  For a workout task under a policy with session duration \<open>S\<close> and one-way
  travel \<open>T\<close>, the Slot Finder requires a free interval of length at least
  \<open>max S (S + 2 * T)\<close>: it finds nothing when no free interval is that long, and what it
  returns spans exactly \<open>S\<close> minutes inside such an interval, with at least \<open>T\<close> minutes
  of it left before the start and after the end.  A single free interval that is long
  enough, and whose start plus \<open>T\<close> is not the end of a meal anchor, is taken.  With
  \<open>S = 60\<close> and \<open>T = 15\<close> the length required is 90, and in a free block of 120 minutes
  the session is stored from minute 15 to minute 75.
\<close>

theorem workout_travel_buffer:
  assumes "t_kind t = Workout"
  shows "required_length pol t
           = max (session_duration pol) (session_duration pol + 2 * travel_oneway_min pol)
       \<and> (findSlot pol me t fs = Some (s, e) \<longrightarrow>
            e - s = int (session_duration pol)
            \<and> (\<exists>f \<in> set fs.
                  int (max (session_duration pol) (session_duration pol + 2 * travel_oneway_min pol))
                    \<le> snd f - fst f
                  \<and> fst f + int (travel_oneway_min pol) \<le> s
                  \<and> e + int (travel_oneway_min pol) \<le> snd f))
       \<and> ((\<forall>f \<in> set fs. snd f - fst f
              < int (max (session_duration pol) (session_duration pol + 2 * travel_oneway_min pol)))
            \<longrightarrow> findSlot pol me t fs = None)
       \<and> (int (max (session_duration pol) (session_duration pol + 2 * travel_oneway_min pol)) \<le> b - a
            \<and> a + int (travel_oneway_min pol) \<notin> set me
            \<longrightarrow> findSlot pol me t [(a, b)]
                  = Some (a + int (travel_oneway_min pol),
                          a + int (travel_oneway_min pol) + int (session_duration pol)))"
proof -
  have req: "required_length pol t
      = max (session_duration pol) (session_duration pol + 2 * travel_oneway_min pol)"
    using assms by (simp add: required_length_def add.commute)
  have ld: "lead_margin pol t = travel_oneway_min pol"
    and sl: "stored_length pol t = session_duration pol"
    using assms by (simp_all add: lead_margin_def stored_length_def)
  have some: "e - s = int (session_duration pol)
            \<and> (\<exists>f \<in> set fs.
                  int (max (session_duration pol) (session_duration pol + 2 * travel_oneway_min pol))
                    \<le> snd f - fst f
                  \<and> fst f + int (travel_oneway_min pol) \<le> s
                  \<and> e + int (travel_oneway_min pol) \<le> snd f)"
    if h: "findSlot pol me t fs = Some (s, e)"
  proof -
    from findSlot_Some [OF h] obtain f where f: "f \<in> set fs"
      "int (required_length pol t) \<le> snd f - fst f"
      "s = fst f + int (lead_margin pol t)" "e = s + int (stored_length pol t)"
      by blast
    have "e - s = int (session_duration pol)" using f(4) sl by simp
    moreover have "fst f + int (travel_oneway_min pol) \<le> s" using f(3) ld by simp
    moreover have "e + int (travel_oneway_min pol) \<le> snd f"
      using f(2,3,4) unfolding req ld sl by simp
    ultimately show ?thesis using f(1,2) unfolding req by blast
  qed
  have none: "findSlot pol me t fs = None"
    if "\<forall>f \<in> set fs. snd f - fst f
              < int (max (session_duration pol) (session_duration pol + 2 * travel_oneway_min pol))"
    using that by (intro findSlot_None) (simp add: req)
  have one: "findSlot pol me t [(a, b)]
                  = Some (a + int (travel_oneway_min pol),
                          a + int (travel_oneway_min pol) + int (session_duration pol))"
    if "int (max (session_duration pol) (session_duration pol + 2 * travel_oneway_min pol)) \<le> b - a
            \<and> a + int (travel_oneway_min pol) \<notin> set me"
    using that by (simp add: req ld sl Let_def)
  show ?thesis using req some none one by blast
qed

theorem workout_travel_buffer_witness:
  "required_length example_policy example_workout = 90
   \<and> findSlot example_policy [] example_workout [(0, 120)] = Some (15, 75)"
proof -
  have k: "t_kind example_workout = Workout" by (simp add: example_workout_def)
  have p: "session_duration example_policy = 60" "travel_oneway_min example_policy = 15"
    by (simp_all add: example_policy_def)
  show ?thesis
    using workout_travel_buffer [OF k, where pol = example_policy and me = "[]"
        and fs = "[(0, 120)]" and s = 15 and e = 75 and a = 0 and b = 120]
    unfolding p by (simp del: findSlot.simps)
qed

subsection \<open>Idempotence of the Anchor Resolver\<close>

text \<open>
  Claim C1.  For every routine config, user, day and store, calling \<open>ensureAnchors\<close> a
  second time on the store the first call left gives the same store and the same anchor
  tasks as the first call: the same ids, the same \<open>planned_start\<close> and \<open>planned_end\<close>, and
  no row more.
\<close>

theorem ensureAnchors_idempotent:
  "ensureAnchors cfg u day (fst (ensureAnchors cfg u day s)) = ensureAnchors cfg u day s
   \<and> map t_id (snd (ensureAnchors cfg u day (fst (ensureAnchors cfg u day s))))
       = map t_id (snd (ensureAnchors cfg u day s))
   \<and> map t_planned (snd (ensureAnchors cfg u day (fst (ensureAnchors cfg u day s))))
       = map t_planned (snd (ensureAnchors cfg u day s))
   \<and> length (fst (ensureAnchors cfg u day (fst (ensureAnchors cfg u day s))))
       = length (fst (ensureAnchors cfg u day s))"
proof -
  define specs where "specs = anchor_specs cfg day"
  define s1 where "s1 = fst (upsert_all u specs s)"
  have st: "fst (upsert_all u specs s1) = s1"
    unfolding s1_def by (rule upsert_all_store_idem)
  have "snd (upsert_all u specs s1) = snd (upsert_all u specs s)"
    using upsert_all_rows [of u specs s1] upsert_all_rows [of u specs s] st
    by (simp add: s1_def)
  then have "upsert_all u specs s1 = upsert_all u specs s"
    using st by (simp add: prod_eq_iff s1_def)
  then show ?thesis
    by (simp add: ensureAnchors_def specs_def s1_def)
qed

theorem ensureAnchors_idempotent_witness:
  "map t_id (snd (ensureAnchors example_config 1 0 (fst (ensureAnchors example_config 1 0 []))))
     = [1, 2]
   \<and> map t_planned (snd (ensureAnchors example_config 1 0 (fst (ensureAnchors example_config 1 0 []))))
     = [Some (360, 390), Some (420, 450)]
   \<and> length (fst (ensureAnchors example_config 1 0 (fst (ensureAnchors example_config 1 0 [])))) = 2"
proof -
  have e: "map t_id (snd (ensureAnchors example_config 1 0 [])) = [1, 2]"
    "map t_planned (snd (ensureAnchors example_config 1 0 [])) = [Some (360, 390), Some (420, 450)]"
    "length (fst (ensureAnchors example_config 1 0 [])) = 2"
    by code_simp+
  show ?thesis
    using ensureAnchors_idempotent [of example_config 1 0 "[]"] e by simp
qed

end
